theory Spec2Isabelle
  imports Main "HOL-Library.Char_ord" "HOL-Library.List_Lexorder" "HOL-Library.AList"
    "HOL-Library.Multiset"
begin

section \<open>Solagram data hooks: addresses, guarded fetches, batching and merging\<close>

text \<open>
  The four React hooks of the frontend (\<open>usePost\<close>, \<open>useUserProfile\<close>, \<open>useComments\<close>,
  \<open>useProfiles\<close>) are embedded as functions over explicit hook state. What the hooks call
  in libraries (web3.js, Anchor, Node's crypto, \<open>@/lib/errors\<close>) is a parameter of the
  model; what the ledger answers to a remote call is an argument of the operation that
  awaits it. A JavaScript string is its UTF-8 byte sequence, so \<open>Buffer.from(s, 'utf8')\<close>
  is the string itself.
\<close>

subsection \<open>Values\<close>

type_synonym bytes = string

datatype PublicKey = PublicKey (toBuffer: bytes)

text \<open>A thrown JavaScript error: its \<open>message\<close> and \<open>err.error?.errorCode?.code\<close>.\<close>

datatype js_error = JsError (message: string) (errorCode: "string option")

text \<open>
  A user profile, both as Anchor decodes the account (counters and timestamps are BN
  values) and as the \<open>UserProfile\<close> interface holds it (the same integers as numbers).
\<close>

record UserProfile =
  authority :: PublicKey
  handle :: string
  bio :: string
  avatarUri :: string
  createdAt :: int
  updatedAt :: int
  followerCount :: int
  followingCount :: int

record ProfileWithFollowStatus = UserProfile +
  isFollowing :: bool
  followPda :: "PublicKey option"

text \<open>
  A post account and the \<open>Post\<close> interface; the fields carry the prefix \<open>post_\<close> since
  \<open>profile\<close> and \<open>content\<close> name other things below (\<open>post_created_at\<close> is the account's
  \<open>createdAt\<close>, \<open>post_media_uri\<close> its \<open>mediaUri\<close>). The optional \<open>creator_handle\<close> is never
  set by the hooks and is left out.
\<close>

record Post =
  post_profile :: PublicKey
  post_creator :: PublicKey
  post_content :: string
  post_media_uri :: string
  post_like_count :: int
  post_dislike_count :: int
  post_love_count :: int
  post_haha_count :: int
  post_wow_count :: int
  post_sad_count :: int
  post_angry_count :: int
  post_comment_count :: int
  post_created_at :: int
  post_updated_at :: int

record Comment =
  comment_post :: PublicKey
  comment_commentBy :: PublicKey
  comment_content :: string
  comment_createdAt :: int
  comment_updatedAt :: int

text \<open>What \<open>program.account.X.all()\<close> returns per account: its address and its data.\<close>

record 'a ProgramAccount =
  publicKey :: PublicKey
  account :: 'a

text \<open>A post of the scan with the \<open>creatorHandle\<close> that \<open>fetchAllPosts\<close> spreads in.\<close>

record PostWithHandle = "Post ProgramAccount" +
  creatorHandle :: string

record AccountInfo =
  data :: bytes

subsection \<open>External libraries\<close>

text \<open>
  \<open>findProgramAddressSync seeds programId\<close> is the address (component 0) that web3.js
  derives; \<open>sha256\<close> is \<open>crypto.createHash('sha256').update(b).digest()\<close>; \<open>toBase58\<close> is
  \<open>PublicKey.toString\<close>; \<open>fromBase58\<close> is \<open>new PublicKey(string)\<close>; \<open>decodeUserProfile\<close> is
  \<open>program.coder.accounts.decode("userProfile", data)\<close>, which may throw;
  \<open>getErrorMessage\<close> is the lookup of \<open>@/lib/errors\<close>; \<open>roundToDouble\<close> is the value
  \<open>Number\<close> gives an integer that is not a safe integer.
\<close>

record lib =
  findProgramAddressSync :: "bytes list \<Rightarrow> PublicKey \<Rightarrow> PublicKey"
  sha256 :: "bytes \<Rightarrow> bytes"
  toBase58 :: "PublicKey \<Rightarrow> string"
  fromBase58 :: "string \<Rightarrow> PublicKey"
  decodeUserProfile :: "bytes \<Rightarrow> js_error + UserProfile"
  getErrorMessage :: "string option \<Rightarrow> string"
  roundToDouble :: "int \<Rightarrow> int"

definition PROGRAM_ID :: "lib \<Rightarrow> PublicKey" where
  "PROGRAM_ID L = fromBase58 L ''o7WMnMvBfhf21mXMeoi2yAdmfiCsEaKGZE3DHT1E1qF''"

text \<open>\<open>BN.toNumber\<close>: the integer itself below 53 bits, an assertion failure above.\<close>

definition toNumber :: "int \<Rightarrow> js_error + int" where
  "toNumber x =
     (if \<bar>x\<bar> < 2 ^ 53 then Inr x
      else Inl (JsError ''Number can only safely store up to 53 bits'' None))"

text \<open>The conversions of an object literal run in order; the first throw ends them.\<close>

fun toNumbers :: "int list \<Rightarrow> js_error + int list" where
  "toNumbers [] = Inr []"
| "toNumbers (x # xs) =
     (case toNumber x of
        Inl e \<Rightarrow> Inl e
      | Inr n \<Rightarrow> (case toNumbers xs of Inl e \<Rightarrow> Inl e | Inr ns \<Rightarrow> Inr (n # ns)))"

text \<open>\<open>Number(bn)\<close>: exact on safe integers, rounded to a double beyond them.\<close>

definition Number_of :: "lib \<Rightarrow> int \<Rightarrow> int" where
  "Number_of L x = (if \<bar>x\<bar> < 2 ^ 53 then x else roundToDouble L x)"

subsection \<open>Remote calls\<close>

text \<open>The remote calls a hook issues, in the order it issues them.\<close>

datatype rpc =
  Rpc_createPost string string PublicKey PublicKey PublicKey
| PostFetch PublicKey
| PostAll
| UserProfileFetch PublicKey
| UserProfileAll
| CommentAll nat string
| GetMultipleAccountsInfo "PublicKey list"


subsection \<open>Wallet, provider, program\<close>

text \<open>
  \<open>wallet\<close> is \<open>useAnchorWallet()\<close>: the connected identity or null. The provider and the
  program are memoised on it and are null exactly when it is.
\<close>

definition provider :: "PublicKey option \<Rightarrow> unit option" where
  "provider wallet = (case wallet of None \<Rightarrow> None | Some w \<Rightarrow> Some ())"

definition program :: "PublicKey option \<Rightarrow> unit option" where
  "program wallet = (case provider wallet of None \<Rightarrow> None | Some p \<Rightarrow> Some ())"

subsection \<open>Address derivation\<close>

definition profilePda :: "lib \<Rightarrow> PublicKey option \<Rightarrow> PublicKey option" where
  "profilePda L wallet =
     (case wallet of
        None \<Rightarrow> None
      | Some w \<Rightarrow> Some (findProgramAddressSync L [''profile'', toBuffer w] (PROGRAM_ID L)))"

definition derivePostPda ::
  "lib \<Rightarrow> PublicKey option \<Rightarrow> string \<Rightarrow> PublicKey \<Rightarrow> PublicKey option" where
  "derivePostPda L wallet mediaUri profPda =
     (case wallet of
        None \<Rightarrow> None
      | Some w \<Rightarrow>
          Some (findProgramAddressSync L
                  [''post'', toBuffer w, take 4 (sha256 L mediaUri), toBuffer profPda]
                  (PROGRAM_ID L)))"


definition deriveFollowPda :: "lib \<Rightarrow> PublicKey \<Rightarrow> PublicKey \<Rightarrow> PublicKey" where
  "deriveFollowPda L follower following =
     findProgramAddressSync L [''follow'', toBuffer follower, toBuffer following] (PROGRAM_ID L)"

subsection \<open>Hook state\<close>

text \<open>
  The state every hook has: \<open>isLoading\<close>, \<open>error\<close> and the in-flight guard \<open>fetchingRef\<close> (a
  boolean, or for \<open>useComments\<close> the key of the post being fetched).
\<close>

record 'g hook_state =
  isLoading :: bool
  error :: "string option"
  fetchingRef :: 'g

record usePost_state = "bool hook_state" +
  post :: "Post option"
  posts :: "Post ProgramAccount list"
  allPosts :: "PostWithHandle list"

record useUserProfile_state = "bool hook_state" +
  profile :: "UserProfile option"
  lastWalletRef :: "string option"

record useComments_state = "string option hook_state" +
  comments :: "Comment list"

record useProfiles_state = "bool hook_state" +
  profiles :: "ProfileWithFollowStatus list"

subsection \<open>usePost: createPost and fetchPost\<close>


text \<open>The \<open>Post\<close> that \<open>fetchPost\<close> builds: every counter through \<open>toNumber\<close>.\<close>

definition userPost_of :: "Post \<Rightarrow> js_error + Post" where
  "userPost_of a =
     (case toNumbers [post_like_count a, post_dislike_count a, post_love_count a,
                      post_haha_count a, post_wow_count a, post_sad_count a,
                      post_angry_count a, post_comment_count a, post_created_at a,
                      post_updated_at a] of
        Inl e \<Rightarrow> Inl e
      | Inr ns \<Rightarrow> Inr a)"

text \<open>
  What \<open>fetchPost\<close> returns: nothing (the early return), the post, or the failure object
  of its catch block.
\<close>

datatype fetchPost_result = Undefined | UserPost Post | FetchFailure string

definition fetchPost ::
  "lib \<Rightarrow> PublicKey option \<Rightarrow> string \<Rightarrow> js_error + Post \<Rightarrow> usePost_state
     \<Rightarrow> usePost_state \<times> fetchPost_result \<times> rpc list" where
  "fetchPost L wallet mediaUri response st =
     (case (program wallet, profilePda L wallet) of
        (Some prog, Some pp) \<Rightarrow>
          (case derivePostPda L wallet mediaUri pp of
             None \<Rightarrow>
               (st, FetchFailure (getErrorMessage L
                   (errorCode (JsError ''Failed to derive post PDA'' None))), [])
           | Some postPda \<Rightarrow>
               (case response of
                  Inl err \<Rightarrow>
                    (st, FetchFailure (getErrorMessage L (errorCode err)), [PostFetch postPda])
                | Inr postAccount \<Rightarrow>
                    (case userPost_of postAccount of
                       Inl err \<Rightarrow>
                         (st, FetchFailure (getErrorMessage L (errorCode err)),
                          [PostFetch postPda])
                     | Inr userPost \<Rightarrow>
                         (st\<lparr>post := Some userPost\<rparr>, UserPost userPost,
                          [PostFetch postPda]))))
      | _ \<Rightarrow> (st, Undefined, []))"

subsection \<open>JavaScript Map and Array helpers\<close>

text \<open>
  A \<open>Map\<close> keeps its entries in insertion order: \<open>set\<close> on a present key replaces the value
  in place, on an absent key it appends. \<open>Array.from(m.entries()).find(...)\<close> walks that
  order.
\<close>

type_synonym ('k, 'v) js_map = "('k \<times> 'v) list"

definition Map_has :: "('k, 'v) js_map \<Rightarrow> 'k \<Rightarrow> bool" where
  "Map_has m k = (k \<in> set (map fst m))"

definition Map_get :: "('k, 'v) js_map \<Rightarrow> 'k \<Rightarrow> 'v option" where
  "Map_get m k = map_of m k"

definition Map_set :: "('k, 'v) js_map \<Rightarrow> 'k \<Rightarrow> 'v \<Rightarrow> ('k, 'v) js_map" where
  "Map_set m k v = AList.update k v m"

text \<open>The key of the first entry whose address equals \<open>pda\<close>, as \<open>find(...)?.[0]\<close>.\<close>

definition find_key :: "(string, PublicKey) js_map \<Rightarrow> PublicKey \<Rightarrow> string option" where
  "find_key m pda = map_option fst (find (\<lambda>e. snd e = pda) m)"

text \<open>\<open>String.prototype.includes\<close>.\<close>

fun str_includes :: "string \<Rightarrow> string \<Rightarrow> bool" where
  "str_includes [] sub = (sub = [])"
| "str_includes (c # cs) sub = (take (length sub) (c # cs) = sub \<or> str_includes cs sub)"

subsection \<open>usePost: fetchAllPosts\<close>

text \<open>
  The guards and the synchronous prefix of \<open>fetchAllPosts\<close>, up to its first await: the
  state it leaves and the remote call it has issued (none when it returns early).
\<close>

definition fetchAllPosts_start ::
  "PublicKey option \<Rightarrow> usePost_state \<Rightarrow> usePost_state \<times> rpc list" where
  "fetchAllPosts_start wallet st =
     (case (program wallet, wallet) of
        (Some prog, Some w) \<Rightarrow>
          if fetchingRef st then (st, [])
          else (st\<lparr>fetchingRef := True, isLoading := True\<rparr>, [PostAll])
      | _ \<Rightarrow> (st, []))"

text \<open>The first creator of every distinct \<open>creator.toString()\<close>, in scan order.\<close>

definition uniqueCreators :: "lib \<Rightarrow> Post ProgramAccount list \<Rightarrow> (string, PublicKey) js_map" where
  "uniqueCreators L allPostsResponse =
     fold (\<lambda>p m. let creatorKey = toBase58 L (post_creator (account p))
                  in if \<not> Map_has m creatorKey
                     then Map_set m creatorKey (post_creator (account p)) else m)
          allPostsResponse []"

definition creatorProfilePda :: "lib \<Rightarrow> PublicKey \<Rightarrow> PublicKey" where
  "creatorProfilePda L creator =
     findProgramAddressSync L [''profile'', toBuffer creator] (PROGRAM_ID L)"

text \<open>The loop over \<open>uniqueCreators\<close>: the array \<open>profilePdas\<close> and the map \<open>creatorToPda\<close>.\<close>

definition deriveProfilePdas ::
  "lib \<Rightarrow> (string, PublicKey) js_map \<Rightarrow> PublicKey list \<times> (string, PublicKey) js_map" where
  "deriveProfilePdas L uniq =
     fold (\<lambda>e acc. let creator = snd e; pda = creatorProfilePda L creator
                    in (fst acc @ [pda], Map_set (snd acc) (toBase58 L creator) pda))
          uniq ([], [])"

text \<open>
  One step of the loop over the returned accounts: \<open>accountInfo\<close> is the account at index
  \<open>index\<close>, \<open>pda\<close> is \<open>profilePdas[index]\<close>. A null account and a decode that throws leave
  the map as it is; \<open>if (creator)\<close> also skips an empty key.
\<close>

definition profileMap_step ::
  "lib \<Rightarrow> (string, PublicKey) js_map \<Rightarrow> AccountInfo option \<times> PublicKey
     \<Rightarrow> (string, string) js_map \<Rightarrow> (string, string) js_map" where
  "profileMap_step L creatorToPda e profileMap =
     (case fst e of
        None \<Rightarrow> profileMap
      | Some accountInfo \<Rightarrow>
          (case decodeUserProfile L (data accountInfo) of
             Inl err \<Rightarrow> profileMap
           | Inr profileData \<Rightarrow>
               (case find_key creatorToPda (snd e) of
                  None \<Rightarrow> profileMap
                | Some creator \<Rightarrow>
                    if creator \<noteq> [] then Map_set profileMap creator (handle profileData)
                    else profileMap)))"

definition buildProfileMap ::
  "lib \<Rightarrow> (string, PublicKey) js_map \<Rightarrow> AccountInfo option list \<Rightarrow> PublicKey list
     \<Rightarrow> (string, string) js_map" where
  "buildProfileMap L creatorToPda profileAccounts profilePdas =
     fold (profileMap_step L creatorToPda) (zip profileAccounts profilePdas) []"

definition fallbackHandle :: "string \<Rightarrow> string" where
  "fallbackHandle creatorKey = ''User '' @ take 8 creatorKey @ ''...''"

text \<open>\<open>profileMap.get(creatorKey) || fallback\<close>: an empty handle is falsy too.\<close>

definition withHandle :: "lib \<Rightarrow> (string, string) js_map \<Rightarrow> Post ProgramAccount \<Rightarrow> PostWithHandle" where
  "withHandle L profileMap p =
     (let creatorKey = toBase58 L (post_creator (account p));
          h = (case Map_get profileMap creatorKey of
                 None \<Rightarrow> fallbackHandle creatorKey
               | Some v \<Rightarrow> if v \<noteq> [] then v else fallbackHandle creatorKey)
      in \<lparr>publicKey = publicKey p, account = account p, creatorHandle = h\<rparr>)"

text \<open>
  \<open>Array.prototype.sort\<close> is stable; with the comparator
  \<open>Number(b.account.createdAt) - Number(a.account.createdAt)\<close> its result is the stable
  sort on the negated number.
\<close>

definition sortPosts :: "lib \<Rightarrow> PostWithHandle list \<Rightarrow> PostWithHandle list" where
  "sortPosts L ps = sort_key (\<lambda>p. - Number_of L (post_created_at (account p))) ps"

text \<open>
  The try block of \<open>fetchAllPosts\<close>. \<open>scan\<close> is what \<open>program.account.post.all()\<close> answers;
  \<open>multi\<close> is what \<open>getMultipleAccountsInfo\<close> answers: a failure, or the ledger's accounts by
  address, read in the order of the request. The result is the sorted list or the error
  thrown, and the remote calls issued after the scan.
\<close>

definition fetchAllPosts_try ::
  "lib \<Rightarrow> js_error + Post ProgramAccount list \<Rightarrow> js_error + (PublicKey \<Rightarrow> AccountInfo option)
     \<Rightarrow> (js_error + PostWithHandle list) \<times> rpc list" where
  "fetchAllPosts_try L scan multi =
     (case scan of
        Inl err \<Rightarrow> (Inl err, [])
      | Inr allPostsResponse \<Rightarrow>
          (let uniq = uniqueCreators L allPostsResponse;
               profilePdas = fst (deriveProfilePdas L uniq);
               creatorToPda = snd (deriveProfilePdas L uniq)
           in (case multi of
                 Inl err \<Rightarrow> Inl err
               | Inr ledger \<Rightarrow>
                   (let profileAccounts = map ledger profilePdas;
                        profileMap = buildProfileMap L creatorToPda profileAccounts profilePdas;
                        postsWithHandles = map (withHandle L profileMap) allPostsResponse
                    in Inr (sortPosts L postsWithHandles)),
               [GetMultipleAccountsInfo profilePdas])))"

text \<open>The rest of \<open>fetchAllPosts\<close>: try, catch and finally.\<close>

definition fetchAllPosts_finish ::
  "lib \<Rightarrow> js_error + Post ProgramAccount list \<Rightarrow> js_error + (PublicKey \<Rightarrow> AccountInfo option)
     \<Rightarrow> usePost_state \<Rightarrow> usePost_state \<times> rpc list" where
  "fetchAllPosts_finish L scan multi st =
     (let r = fetchAllPosts_try L scan multi;
          st1 = (case fst r of
                   Inr sortedPosts \<Rightarrow> st\<lparr>allPosts := sortedPosts\<rparr>
                 | Inl err \<Rightarrow>
                     st\<lparr>error := Some (if message err \<noteq> [] then message err
                                         else ''Failed to fetch posts'')\<rparr>)
      in (st1\<lparr>isLoading := False, fetchingRef := False\<rparr>, snd r))"

text \<open>\<open>fetchAllPosts\<close> run to its end with nothing interleaved.\<close>

definition fetchAllPosts ::
  "lib \<Rightarrow> PublicKey option \<Rightarrow> js_error + Post ProgramAccount list
     \<Rightarrow> js_error + (PublicKey \<Rightarrow> AccountInfo option) \<Rightarrow> usePost_state
     \<Rightarrow> usePost_state \<times> rpc list" where
  "fetchAllPosts L wallet scan multi st =
     (case fetchAllPosts_start wallet st of
        (st1, []) \<Rightarrow> (st1, [])
      | (st1, c # cs) \<Rightarrow>
          (fst (fetchAllPosts_finish L scan multi st1),
           (c # cs) @ snd (fetchAllPosts_finish L scan multi st1)))"

subsection \<open>useUserProfile: fetchProfile and its effect\<close>

text \<open>\<open>wallet?.publicKey.toString() || null\<close>.\<close>

definition currentWalletKey :: "lib \<Rightarrow> PublicKey option \<Rightarrow> string option" where
  "currentWalletKey L wallet =
     (case wallet of
        None \<Rightarrow> None
      | Some w \<Rightarrow> if toBase58 L w \<noteq> [] then Some (toBase58 L w) else None)"

text \<open>
  \<open>fetchProfile\<close> up to its await. The \<open>profile\<close> it tests is the current state: the callback
  is rebuilt whenever \<open>profile\<close> changes.
\<close>

definition fetchProfile_start ::
  "lib \<Rightarrow> PublicKey option \<Rightarrow> useUserProfile_state \<Rightarrow> useUserProfile_state \<times> rpc list" where
  "fetchProfile_start L wallet st =
     (case (program wallet, profilePda L wallet) of
        (Some prog, Some pda) \<Rightarrow>
          if fetchingRef st then (st, [])
          else if currentWalletKey L wallet = lastWalletRef st \<and> profile st \<noteq> None
          then (st, [])
          else (st\<lparr>fetchingRef := True, isLoading := True, error := None\<rparr>,
                [UserProfileFetch pda])
      | _ \<Rightarrow> (st\<lparr>profile := None\<rparr>, []))"

definition userProfile_of :: "UserProfile \<Rightarrow> js_error + UserProfile" where
  "userProfile_of a =
     (case toNumbers [followerCount a, followingCount a, createdAt a, updatedAt a] of
        Inl e \<Rightarrow> Inl e
      | Inr ns \<Rightarrow> Inr a)"

text \<open>The catch block of \<open>fetchProfile\<close>.\<close>

definition fetchProfile_catch ::
  "lib \<Rightarrow> PublicKey option \<Rightarrow> js_error \<Rightarrow> useUserProfile_state \<Rightarrow> useUserProfile_state" where
  "fetchProfile_catch L wallet err st =
     (if str_includes (message err) ''Account does not exist''
      then st\<lparr>profile := None\<rparr>
      else st\<lparr>error := Some (message err)\<rparr>)
       \<lparr>lastWalletRef := currentWalletKey L wallet\<rparr>"

text \<open>
  The rest of \<open>fetchProfile\<close>; \<open>response\<close> is what \<open>program.account.userProfile.fetch\<close>
  answers: the account, or the error it throws.
\<close>

definition fetchProfile_finish ::
  "lib \<Rightarrow> PublicKey option \<Rightarrow> js_error + UserProfile \<Rightarrow> useUserProfile_state
     \<Rightarrow> useUserProfile_state" where
  "fetchProfile_finish L wallet response st =
     (let st1 = (case response of
                   Inl err \<Rightarrow> fetchProfile_catch L wallet err st
                 | Inr profileAccount \<Rightarrow>
                     (case userProfile_of profileAccount of
                        Inl err \<Rightarrow> fetchProfile_catch L wallet err st
                      | Inr userProfile \<Rightarrow>
                          st\<lparr>profile := Some userProfile,
                             lastWalletRef := currentWalletKey L wallet\<rparr>))
      in st1\<lparr>isLoading := False, fetchingRef := False\<rparr>)"

definition fetchProfile ::
  "lib \<Rightarrow> PublicKey option \<Rightarrow> js_error + UserProfile \<Rightarrow> useUserProfile_state
     \<Rightarrow> useUserProfile_state \<times> rpc list" where
  "fetchProfile L wallet response st =
     (case fetchProfile_start L wallet st of
        (st1, []) \<Rightarrow> (st1, [])
      | (st1, c # cs) \<Rightarrow> (fetchProfile_finish L wallet response st1, c # cs))"

text \<open>The effect of \<open>useUserProfile\<close>, run when the wallet (and what is memoised on it) changes.\<close>

definition useUserProfile_effect ::
  "lib \<Rightarrow> PublicKey option \<Rightarrow> useUserProfile_state \<Rightarrow> useUserProfile_state \<times> rpc list" where
  "useUserProfile_effect L wallet st =
     (case (wallet, program wallet, profilePda L wallet) of
        (Some w, Some prog, Some pda) \<Rightarrow> fetchProfile_start L wallet st
      | _ \<Rightarrow> (st\<lparr>profile := None, lastWalletRef := None\<rparr>, []))"

subsection \<open>useComments: fetchCommentsForPost\<close>

definition fetchCommentsForPost_start ::
  "lib \<Rightarrow> PublicKey option \<Rightarrow> PublicKey \<Rightarrow> useComments_state \<Rightarrow> useComments_state \<times> rpc list" where
  "fetchCommentsForPost_start L wallet postPda st =
     (case program wallet of
        None \<Rightarrow> (st, [])
      | Some prog \<Rightarrow>
          (let postKey = toBase58 L postPda
           in if fetchingRef st = Some postKey then (st, [])
              else (st\<lparr>fetchingRef := Some postKey, isLoading := True, error := None\<rparr>,
                    [CommentAll 8 (toBase58 L postPda)])))"

text \<open>The \<open>map\<close> over the scanned comment accounts; a \<open>toNumber\<close> that throws ends it.\<close>

fun commentsList_of :: "Comment ProgramAccount list \<Rightarrow> js_error + Comment list" where
  "commentsList_of [] = Inr []"
| "commentsList_of (commentAccount # rest) =
     (let commentData = account commentAccount
      in case toNumbers [comment_createdAt commentData, comment_updatedAt commentData] of
           Inl e \<Rightarrow> Inl e
         | Inr ns \<Rightarrow>
             (case commentsList_of rest of
                Inl e \<Rightarrow> Inl e
              | Inr cs \<Rightarrow> Inr (commentData # cs)))"

text \<open>The stable sort with the comparator \<open>a.createdAt - b.createdAt\<close>.\<close>

definition sortComments :: "Comment list \<Rightarrow> Comment list" where
  "sortComments cs = sort_key comment_createdAt cs"

definition fetchCommentsForPost_finish ::
  "js_error + Comment ProgramAccount list \<Rightarrow> useComments_state \<Rightarrow> useComments_state" where
  "fetchCommentsForPost_finish response st =
     (let r = (case response of
                 Inl err \<Rightarrow> Inl err
               | Inr postComments \<Rightarrow>
                   (case commentsList_of postComments of
                      Inl err \<Rightarrow> Inl err
                    | Inr commentsList \<Rightarrow> Inr (sortComments commentsList)));
          st1 = (case r of
                   Inr sortedComments \<Rightarrow> st\<lparr>comments := sortedComments\<rparr>
                 | Inl err \<Rightarrow> st\<lparr>error := Some (message err)\<rparr>)
      in st1\<lparr>isLoading := False, fetchingRef := None\<rparr>)"

definition fetchCommentsForPost ::
  "lib \<Rightarrow> PublicKey option \<Rightarrow> PublicKey \<Rightarrow> js_error + Comment ProgramAccount list
     \<Rightarrow> useComments_state \<Rightarrow> useComments_state \<times> rpc list" where
  "fetchCommentsForPost L wallet postPda response st =
     (case fetchCommentsForPost_start L wallet postPda st of
        (st1, []) \<Rightarrow> (st1, [])
      | (st1, c # cs) \<Rightarrow> (fetchCommentsForPost_finish response st1, c # cs))"

subsection \<open>useProfiles: batchCheckFollowStatus and fetchAllProfiles\<close>

text \<open>The value of the result map: \<open>isFollowing\<close> and \<open>followPda\<close>.\<close>

type_synonym follow_status = "bool \<times> PublicKey option"

text \<open>The loop over the authorities: the array \<open>followPdas\<close> and the map \<open>authorityToFollowPda\<close>.\<close>

definition deriveFollowPdas ::
  "lib \<Rightarrow> PublicKey \<Rightarrow> PublicKey list \<Rightarrow> PublicKey list \<times> (string, PublicKey) js_map" where
  "deriveFollowPdas L w profileAuthorities =
     fold (\<lambda>authority acc. let pda = deriveFollowPda L w authority
                            in (fst acc @ [pda], Map_set (snd acc) (toBase58 L authority) pda))
          profileAuthorities ([], [])"

text \<open>One step of the loop over the returned follow accounts; only their presence is read.\<close>

definition resultMap_step ::
  "(string, PublicKey) js_map \<Rightarrow> AccountInfo option \<times> PublicKey
     \<Rightarrow> (string, follow_status) js_map \<Rightarrow> (string, follow_status) js_map" where
  "resultMap_step authorityToFollowPda e resultMap =
     (case find_key authorityToFollowPda (snd e) of
        None \<Rightarrow> resultMap
      | Some a \<Rightarrow>
          if a \<noteq> []
          then Map_set resultMap a (fst e \<noteq> None, if fst e \<noteq> None then Some (snd e) else None)
          else resultMap)"

text \<open>
  \<open>batchCheckFollowStatus\<close>: the map it resolves to, or the error of the remote read it
  rejects with, and the remote calls issued.
\<close>

definition batchCheckFollowStatus ::
  "lib \<Rightarrow> PublicKey option \<Rightarrow> PublicKey list \<Rightarrow> js_error + (PublicKey \<Rightarrow> AccountInfo option)
     \<Rightarrow> (js_error + (string, follow_status) js_map) \<times> rpc list" where
  "batchCheckFollowStatus L wallet profileAuthorities multi =
     (case (wallet, program wallet) of
        (Some w, Some prog) \<Rightarrow>
          (let followPdas = fst (deriveFollowPdas L w profileAuthorities);
               authorityToFollowPda = snd (deriveFollowPdas L w profileAuthorities)
           in (case multi of
                 Inl err \<Rightarrow> Inl err
               | Inr ledger \<Rightarrow>
                   Inr (fold (resultMap_step authorityToFollowPda)
                          (zip (map ledger followPdas) followPdas) []),
               [GetMultipleAccountsInfo followPdas]))
      | _ \<Rightarrow> (Inr [], []))"

definition fetchAllProfiles_start ::
  "PublicKey option \<Rightarrow> useProfiles_state \<Rightarrow> useProfiles_state \<times> rpc list" where
  "fetchAllProfiles_start wallet st =
     (case (program wallet, wallet) of
        (Some prog, Some w) \<Rightarrow>
          if fetchingRef st then (st, [])
          else (st\<lparr>fetchingRef := True, isLoading := True, error := None\<rparr>, [UserProfileAll])
      | _ \<Rightarrow> (st, []))"

text \<open>The \<open>map\<close> that builds \<open>profilesWithStatus\<close>; a \<open>toNumber\<close> that throws ends it.\<close>

fun profilesWithStatus_of ::
  "(string, follow_status) js_map \<Rightarrow> lib \<Rightarrow> UserProfile ProgramAccount list
     \<Rightarrow> js_error + ProfileWithFollowStatus list" where
  "profilesWithStatus_of followStatusMap L [] = Inr []"
| "profilesWithStatus_of followStatusMap L (profileAccount # rest) =
     (let profileData = account profileAccount;
          authorityKey = toBase58 L (authority profileData);
          followStatus = (case Map_get followStatusMap authorityKey of
                            None \<Rightarrow> (False, None)
                          | Some s \<Rightarrow> s)
      in case userProfile_of profileData of
           Inl e \<Rightarrow> Inl e
         | Inr userProfile \<Rightarrow>
             (case profilesWithStatus_of followStatusMap L rest of
                Inl e \<Rightarrow> Inl e
              | Inr ps \<Rightarrow>
                  Inr (\<lparr>authority = authority userProfile, handle = handle userProfile,
                        bio = bio userProfile, avatarUri = avatarUri userProfile,
                        createdAt = createdAt userProfile, updatedAt = updatedAt userProfile,
                        followerCount = followerCount userProfile,
                        followingCount = followingCount userProfile,
                        isFollowing = fst followStatus, followPda = snd followStatus\<rparr> # ps)))"

text \<open>
  The try block of \<open>fetchAllProfiles\<close>, for the connected wallet \<open>w\<close> of its closure: \<open>scan\<close>
  is what \<open>program.account.userProfile.all()\<close> answers, \<open>multi\<close> what the batch read of
  \<open>batchCheckFollowStatus\<close> answers.
\<close>

definition fetchAllProfiles_try ::
  "lib \<Rightarrow> PublicKey \<Rightarrow> js_error + UserProfile ProgramAccount list
     \<Rightarrow> js_error + (PublicKey \<Rightarrow> AccountInfo option)
     \<Rightarrow> (js_error + ProfileWithFollowStatus list) \<times> rpc list" where
  "fetchAllProfiles_try L w scan multi =
     (case scan of
        Inl err \<Rightarrow> (Inl err, [])
      | Inr allProfiles \<Rightarrow>
          (let otherProfiles = filter (\<lambda>profileAccount. authority (account profileAccount) \<noteq> w)
                                 allProfiles;
               profileAuthorities = map (\<lambda>profileAccount. authority (account profileAccount))
                                      otherProfiles;
               batch = batchCheckFollowStatus L (Some w) profileAuthorities multi
           in (case fst batch of
                 Inl err \<Rightarrow> Inl err
               | Inr followStatusMap \<Rightarrow> profilesWithStatus_of followStatusMap L otherProfiles,
               snd batch)))"

definition fetchAllProfiles_finish ::
  "lib \<Rightarrow> PublicKey \<Rightarrow> js_error + UserProfile ProgramAccount list
     \<Rightarrow> js_error + (PublicKey \<Rightarrow> AccountInfo option) \<Rightarrow> useProfiles_state
     \<Rightarrow> useProfiles_state \<times> rpc list" where
  "fetchAllProfiles_finish L w scan multi st =
     (let r = fetchAllProfiles_try L w scan multi;
          st1 = (case fst r of
                   Inr profilesWithStatus \<Rightarrow> st\<lparr>profiles := profilesWithStatus\<rparr>
                 | Inl err \<Rightarrow> st\<lparr>error := Some (message err)\<rparr>)
      in (st1\<lparr>isLoading := False, fetchingRef := False\<rparr>, snd r))"

definition fetchAllProfiles ::
  "lib \<Rightarrow> PublicKey option \<Rightarrow> js_error + UserProfile ProgramAccount list
     \<Rightarrow> js_error + (PublicKey \<Rightarrow> AccountInfo option) \<Rightarrow> useProfiles_state
     \<Rightarrow> useProfiles_state \<times> rpc list" where
  "fetchAllProfiles L wallet scan multi st =
     (case (fetchAllProfiles_start wallet st, wallet) of
        ((st1, c # cs), Some w) \<Rightarrow>
          (fst (fetchAllProfiles_finish L w scan multi st1),
           (c # cs) @ snd (fetchAllProfiles_finish L w scan multi st1))
      | ((st1, cs), _) \<Rightarrow> (st1, cs))"

text \<open>The effect of \<open>useProfiles\<close>.\<close>

definition useProfiles_effect ::
  "PublicKey option \<Rightarrow> useProfiles_state \<Rightarrow> useProfiles_state \<times> rpc list" where
  "useProfiles_effect wallet st =
     (case (wallet, program wallet) of
        (Some w, Some prog) \<Rightarrow> fetchAllProfiles_start wallet st
      | _ \<Rightarrow> (st\<lparr>profiles := []\<rparr>, []))"

subsection \<open>Interleaving of calls and answers\<close>

text \<open>
  The hooks run on one thread and interleave only at an await. A run of one hook instance
  is a sequence of events: a caller invokes the fetch (its synchronous prefix runs and
  may issue a remote read), or the answer to an outstanding read arrives and the rest of
  that invocation runs. Answers may arrive in any order. The run state is the hook state
  and the reads that are outstanding.
\<close>

datatype comments_event =
  CallFetchComments PublicKey
| AnswerFetchComments nat "js_error + Comment ProgramAccount list"

fun useComments_step ::
  "lib \<Rightarrow> PublicKey option \<Rightarrow> comments_event \<Rightarrow> useComments_state \<times> PublicKey list
     \<Rightarrow> useComments_state \<times> PublicKey list" where
  "useComments_step L wallet (CallFetchComments postPda) (st, outstanding) =
     (case fetchCommentsForPost_start L wallet postPda st of
        (st1, []) \<Rightarrow> (st1, outstanding)
      | (st1, c # cs) \<Rightarrow> (st1, outstanding @ [postPda]))"
| "useComments_step L wallet (AnswerFetchComments i response) (st, outstanding) =
     (if i < length outstanding
      then (fetchCommentsForPost_finish response st, take i outstanding @ drop (Suc i) outstanding)
      else (st, outstanding))"

definition useComments_run ::
  "lib \<Rightarrow> PublicKey option \<Rightarrow> comments_event list \<Rightarrow> useComments_state \<times> PublicKey list
     \<Rightarrow> useComments_state \<times> PublicKey list" where
  "useComments_run L wallet events s = fold (useComments_step L wallet) events s"

datatype posts_event =
  CallFetchAllPosts
| AnswerFetchAllPosts "js_error + Post ProgramAccount list"
    "js_error + (PublicKey \<Rightarrow> AccountInfo option)"

fun usePost_step ::
  "lib \<Rightarrow> PublicKey option \<Rightarrow> posts_event \<Rightarrow> usePost_state \<times> nat \<Rightarrow> usePost_state \<times> nat" where
  "usePost_step L wallet CallFetchAllPosts (st, outstanding) =
     (case fetchAllPosts_start wallet st of
        (st1, []) \<Rightarrow> (st1, outstanding)
      | (st1, c # cs) \<Rightarrow> (st1, Suc outstanding))"
| "usePost_step L wallet (AnswerFetchAllPosts scan multi) (st, outstanding) =
     (if 0 < outstanding
      then (fst (fetchAllPosts_finish L scan multi st), outstanding - 1)
      else (st, outstanding))"

definition usePost_run ::
  "lib \<Rightarrow> PublicKey option \<Rightarrow> posts_event list \<Rightarrow> usePost_state \<times> nat \<Rightarrow> usePost_state \<times> nat" where
  "usePost_run L wallet events s = fold (usePost_step L wallet) events s"

text \<open>
  The invariant of a \<open>usePost\<close> run: a read is outstanding exactly when the guard is set,
  and then it is the only one.
\<close>

definition usePost_inv :: "usePost_state \<times> nat \<Rightarrow> bool" where
  "usePost_inv s = (snd s = (if fetchingRef (fst s) then 1 else 0))"

subsection \<open>The order the specification asks of a post list\<close>

text \<open>
  Newest first, ties by address bytes ascending: between any two posts of the list, in
  list order.
\<close>

definition spec_post_before :: "PostWithHandle \<Rightarrow> PostWithHandle \<Rightarrow> bool" where
  "spec_post_before a b =
     (post_created_at (account a) > post_created_at (account b)
      \<or> (post_created_at (account a) = post_created_at (account b)
          \<and> toBuffer (publicKey a) < toBuffer (publicKey b)))"

definition spec_posts_sorted :: "PostWithHandle list \<Rightarrow> bool" where
  "spec_posts_sorted ps = sorted_wrt spec_post_before ps"

subsection \<open>A toy instance of the libraries\<close>

text \<open>
  The theorems below hold for every library; to run the model on concrete inputs the
  libraries are instantiated by stand-ins: seeds are joined with unary length prefixes
  (an injective derivation), the digest of a byte string is its reversal, a key prints
  as its bytes, and a profile account decodes when its data starts with \<open>ok:\<close> (the rest
  is the handle).
\<close>

fun join_seeds :: "bytes list \<Rightarrow> bytes" where
  "join_seeds [] = []"
| "join_seeds (s # ss) = replicate (length s) CHR ''1'' @ CHR ''0'' # s @ join_seeds ss"

definition toy_decode :: "bytes \<Rightarrow> js_error + UserProfile" where
  "toy_decode d =
     (if take 3 d = ''ok:''
      then Inr \<lparr>authority = PublicKey [], handle = drop 3 d, bio = [], avatarUri = [],
                createdAt = 0, updatedAt = 0, followerCount = 0, followingCount = 0\<rparr>
      else Inl (JsError ''Invalid account discriminator'' None))"

definition toy_lib :: lib where
  "toy_lib =
     \<lparr>findProgramAddressSync = (\<lambda>seeds pid. PublicKey (join_seeds seeds)),
      sha256 = rev,
      toBase58 = toBuffer,
      fromBase58 = PublicKey,
      decodeUserProfile = toy_decode,
      getErrorMessage = (\<lambda>c. case c of None \<Rightarrow> ''operation failed'' | Some m \<Rightarrow> m),
      roundToDouble = (\<lambda>x. x)\<rparr>"

text \<open>The state of each hook at its first render.\<close>

definition initial_usePost :: usePost_state where
  "initial_usePost =
     \<lparr>isLoading = False, error = None, fetchingRef = False,
      post = None, posts = [], allPosts = []\<rparr>"

definition initial_useUserProfile :: useUserProfile_state where
  "initial_useUserProfile =
     \<lparr>isLoading = False, error = None, fetchingRef = False,
      profile = None, lastWalletRef = None\<rparr>"

definition initial_useComments :: useComments_state where
  "initial_useComments =
     \<lparr>isLoading = False, error = None, fetchingRef = None, comments = []\<rparr>"

definition initial_useProfiles :: useProfiles_state where
  "initial_useProfiles =
     \<lparr>isLoading = False, error = None, fetchingRef = False, profiles = []\<rparr>"

subsection \<open>Sample data\<close>

text \<open>Two profiles and their accounts, as \<open>program.account.userProfile.all()\<close> lists them.\<close>

definition alice :: UserProfile where
  "alice = \<lparr>authority = PublicKey ''U1'', handle = ''alice'', bio = [], avatarUri = [],
     createdAt = 5, updatedAt = 5, followerCount = 0, followingCount = 0\<rparr>"

definition bob :: UserProfile where
  "bob = \<lparr>authority = PublicKey ''U2'', handle = ''bob'', bio = [], avatarUri = [],
     createdAt = 7, updatedAt = 7, followerCount = 0, followingCount = 0\<rparr>"

definition alice_account :: "UserProfile ProgramAccount" where
  "alice_account = \<lparr>publicKey = PublicKey ''pa'', account = alice\<rparr>"

definition bob_account :: "UserProfile ProgramAccount" where
  "bob_account = \<lparr>publicKey = PublicKey ''pb'', account = bob\<rparr>"

text \<open>A post of a given creator and creation time, and a comment of a given content and time.\<close>

definition sample_post :: "PublicKey \<Rightarrow> int \<Rightarrow> Post" where
  "sample_post creator t =
     \<lparr>post_profile = PublicKey ''profile'', post_creator = creator, post_content = ''text'',
      post_media_uri = ''m.png'', post_like_count = 0, post_dislike_count = 0,
      post_love_count = 0, post_haha_count = 0, post_wow_count = 0, post_sad_count = 0,
      post_angry_count = 0, post_comment_count = 0, post_created_at = t,
      post_updated_at = t\<rparr>"

definition sample_comment :: "string \<Rightarrow> int \<Rightarrow> Comment" where
  "sample_comment c t =
     \<lparr>comment_post = PublicKey ''Q1'', comment_commentBy = PublicKey ''U1'',
      comment_content = c, comment_createdAt = t, comment_updatedAt = t\<rparr>"

text \<open>Scenario B of the specification: 50 posts, at 50 addresses, by 5 creators.\<close>

definition scenario_B_posts :: "Post ProgramAccount list" where
  "scenario_B_posts =
     map (\<lambda>i. \<lparr>publicKey = PublicKey (replicate (Suc i) CHR ''p''),
                account = sample_post (PublicKey (CHR ''U'' # replicate (i mod 5) CHR ''x''))
                            (int i)\<rparr>)
         [0..<50]"

text \<open>
  A scan of three posts and a ledger on which the first creator has a profile that
  decodes, the second one that does not decode, and the third none.
\<close>

definition sample_ledger :: "PublicKey \<Rightarrow> AccountInfo option" where
  "sample_ledger a =
     (if a = PublicKey ''11111110profile110U2'' then Some \<lparr>data = ''ok:bob''\<rparr>
      else if a = PublicKey ''11111110profile1111111110U3longkey''
      then Some \<lparr>data = ''garbage''\<rparr>
      else None)"

definition sample_scan :: "Post ProgramAccount list" where
  "sample_scan =
     [\<lparr>publicKey = PublicKey ''A'', account = sample_post (PublicKey ''U2'') 5\<rparr>,
      \<lparr>publicKey = PublicKey ''B'', account = sample_post (PublicKey ''U3longkey'') 6\<rparr>,
      \<lparr>publicKey = PublicKey ''C'', account = sample_post (PublicKey ''U4'') 7\<rparr>]"

text \<open>A ledger on which \<open>U1\<close> follows \<open>U2\<close> and nobody else.\<close>

definition follow_ledger :: "PublicKey \<Rightarrow> AccountInfo option" where
  "follow_ledger a =
     (if a = PublicKey ''1111110follow110U1110U2'' then Some \<lparr>data = ''edge''\<rparr> else None)"

section \<open>Properties\<close>

subsection \<open>General facts\<close>

lemma program_Some [simp]: "program (Some w) = Some ()"
  by (simp add: program_def provider_def)

lemma program_None [simp]: "program None = None"
  by (simp add: program_def provider_def)

lemma update_fresh: "k \<notin> fst ` set m \<Longrightarrow> AList.update k v m = m @ [(k, v)]"
  by (induction m) auto

lemma set_update_subset: "set (AList.update k v m) \<subseteq> insert (k, v) (set m)"
  by (induction m) auto

lemma find_SomeD: "find P xs = Some x \<Longrightarrow> P x \<and> x \<in> set xs"
  by (induction xs) (auto split: if_splits)

lemma find_key_SomeD: "find_key m q = Some k \<Longrightarrow> (k, q) \<in> set m"
  by (induction m) (auto simp: find_key_def split: if_splits)

lemma zip_map_self: "e \<in> set (zip (map f xs) xs) \<Longrightarrow> fst e = f (snd e)"
  by (induction xs) auto

lemma zip_map_map: "zip (map (f \<circ> g) xs) (map g xs) = map (\<lambda>x. (f (g x), g x)) xs"
  by (induction xs) simp_all

lemma withHandle_sel [simp]:
  "publicKey (withHandle L m p) = publicKey p" "account (withHandle L m p) = account p"
  by (simp_all add: withHandle_def Let_def)

subsection \<open>The toy derivation is injective\<close>




subsection \<open>C1: content-keyed addresses\<close>




subsection \<open>C2: one batch read for the creators of all posts\<close>

lemma uniqueCreators_fold:
  assumes "distinct (map fst m)"
  shows "distinct (map fst
           (fold (\<lambda>p m. let creatorKey = toBase58 L (post_creator (account p))
                         in if \<not> Map_has m creatorKey
                            then Map_set m creatorKey (post_creator (account p)) else m) ps m))
       \<and> fst ` set
           (fold (\<lambda>p m. let creatorKey = toBase58 L (post_creator (account p))
                         in if \<not> Map_has m creatorKey
                            then Map_set m creatorKey (post_creator (account p)) else m) ps m)
          = fst ` set m \<union> (\<lambda>p. toBase58 L (post_creator (account p))) ` set ps
       \<and> set
           (fold (\<lambda>p m. let creatorKey = toBase58 L (post_creator (account p))
                         in if \<not> Map_has m creatorKey
                            then Map_set m creatorKey (post_creator (account p)) else m) ps m)
          \<subseteq> set m \<union> (\<lambda>p. (toBase58 L (post_creator (account p)), post_creator (account p)))
                          ` set ps"
  using assms
proof (induction ps arbitrary: m)
  case Nil
  then show ?case by simp
next
  case (Cons p ps)
  let ?k = "toBase58 L (post_creator (account p))"
  let ?m' = "if ?k \<in> fst ` set m then m else m @ [(?k, post_creator (account p))]"
  have d: "distinct (map fst ?m')" using Cons.prems by auto
  have s: "(let creatorKey = ?k
            in if \<not> Map_has m creatorKey
               then Map_set m creatorKey (post_creator (account p)) else m) = ?m'"
    by (simp add: Map_has_def Map_set_def update_fresh)
  show ?case
    using Cons.IH [OF d] unfolding fold_simps s by (auto split: if_splits)
qed

lemma uniqueCreators_keys:
  "distinct (map fst (uniqueCreators L ps))"
  "fst ` set (uniqueCreators L ps) = (\<lambda>p. toBase58 L (post_creator (account p))) ` set ps"
  "set (uniqueCreators L ps)
     \<subseteq> (\<lambda>p. (toBase58 L (post_creator (account p)), post_creator (account p))) ` set ps"
  using uniqueCreators_fold [of "[]" L ps] by (simp_all add: uniqueCreators_def)

lemma length_uniqueCreators:
  "length (uniqueCreators L ps) = card ((\<lambda>p. toBase58 L (post_creator (account p))) ` set ps)"
proof -
  have "length (uniqueCreators L ps) = length (map fst (uniqueCreators L ps))" by simp
  also have "\<dots> = card (set (map fst (uniqueCreators L ps)))"
    by (rule distinct_card [symmetric]) (rule uniqueCreators_keys)
  also have "\<dots> = card ((\<lambda>p. toBase58 L (post_creator (account p))) ` set ps)"
    by (simp add: uniqueCreators_keys)
  finally show ?thesis .
qed

lemma deriveProfilePdas_fold:
  "fst (fold (\<lambda>e acc. let creator = snd e; pda = creatorProfilePda L creator
                       in (fst acc @ [pda], Map_set (snd acc) (toBase58 L creator) pda)) es acc)
     = fst acc @ map (\<lambda>e. creatorProfilePda L (snd e)) es
   \<and> set (snd (fold (\<lambda>e acc. let creator = snd e; pda = creatorProfilePda L creator
                       in (fst acc @ [pda], Map_set (snd acc) (toBase58 L creator) pda)) es acc))
       \<subseteq> set (snd acc) \<union> (\<lambda>e. (toBase58 L (snd e), creatorProfilePda L (snd e))) ` set es"
proof (induction es arbitrary: acc)
  case Nil
  then show ?case by simp
next
  case (Cons e es)
  show ?case
    unfolding fold_simps
    using Cons.IH [of "let creator = snd e; pda = creatorProfilePda L creator
                       in (fst acc @ [pda], Map_set (snd acc) (toBase58 L creator) pda)"]
      set_update_subset [of "toBase58 L (snd e)" "creatorProfilePda L (snd e)" "snd acc"]
    by (auto simp: Let_def Map_set_def)
qed

lemma profilePdas_eq:
  "fst (deriveProfilePdas L uniq) = map (\<lambda>e. creatorProfilePda L (snd e)) uniq"
  using deriveProfilePdas_fold [of L uniq "([], [])"] by (simp add: deriveProfilePdas_def)

lemma creatorToPda_entries:
  "set (snd (deriveProfilePdas L uniq))
     \<subseteq> (\<lambda>e. (toBase58 L (snd e), creatorProfilePda L (snd e))) ` set uniq"
  using deriveProfilePdas_fold [of L uniq "([], [])"] by (simp add: deriveProfilePdas_def)

text \<open>
  C2: when \<open>fetchAllPosts\<close> runs (guard free) and the scan returns the posts \<open>ps\<close>, the
  remote calls it issues are the scan and exactly one multi-address read; the addresses
  of that read are the profile addresses of the deduplicated creators, one per distinct
  creator key of \<open>ps\<close>, so their number is the number of distinct creator keys whatever
  the number of posts. The witness is scenario B: 50 posts by 5 creators, one batch read
  of 5 addresses.
\<close>

theorem C2_one_batch_read:
  assumes "\<not> fetchingRef st"
  shows "snd (fetchAllPosts L (Some w) (Inr ps) multi st)
           = [PostAll, GetMultipleAccountsInfo
                (map (\<lambda>e. creatorProfilePda L (snd e)) (uniqueCreators L ps))]
       \<and> distinct (map fst (uniqueCreators L ps))
       \<and> set (uniqueCreators L ps)
           \<subseteq> (\<lambda>p. (toBase58 L (post_creator (account p)), post_creator (account p))) ` set ps
       \<and> length (map (\<lambda>e. creatorProfilePda L (snd e)) (uniqueCreators L ps))
           = card ((\<lambda>p. toBase58 L (post_creator (account p))) ` set ps)"
proof -
  have "snd (fetchAllPosts L (Some w) (Inr ps) multi st)
           = [PostAll, GetMultipleAccountsInfo (fst (deriveProfilePdas L (uniqueCreators L ps)))]"
    using assms
    by (simp add: fetchAllPosts_def fetchAllPosts_start_def fetchAllPosts_finish_def
        fetchAllPosts_try_def Let_def)
  then show ?thesis
    by (simp add: profilePdas_eq uniqueCreators_keys length_uniqueCreators)
qed

lemma scenario_B_pdas:
  "map (\<lambda>e. creatorProfilePda toy_lib (snd e)) (uniqueCreators toy_lib scenario_B_posts)
     = [PublicKey ''11111110profile10U'', PublicKey ''11111110profile110Ux'',
        PublicKey ''11111110profile1110Uxx'', PublicKey ''11111110profile11110Uxxx'',
        PublicKey ''11111110profile111110Uxxxx'']"
  by code_simp

lemma scenario_B_length: "length scenario_B_posts = 50"
  by (simp add: scenario_B_posts_def)

theorem C2_one_batch_read_witness:
  "length scenario_B_posts = 50
   \<and> snd (fetchAllPosts toy_lib (Some (PublicKey ''U'')) (Inr scenario_B_posts)
            (Inr (\<lambda>a. None)) initial_usePost)
       = [PostAll, GetMultipleAccountsInfo
            [PublicKey ''11111110profile10U'', PublicKey ''11111110profile110Ux'',
             PublicKey ''11111110profile1110Uxx'', PublicKey ''11111110profile11110Uxxx'',
             PublicKey ''11111110profile111110Uxxxx'']]"
proof -
  have h: "\<not> fetchingRef initial_usePost" by (simp add: initial_usePost_def)
  from C2_one_batch_read [OF h, of toy_lib "PublicKey ''U''" scenario_B_posts "Inr (\<lambda>a. None)"]
  show ?thesis by (simp add: scenario_B_pdas scenario_B_length)
qed

subsection \<open>The guard after the rest of a fetch\<close>

lemma fetchAllPosts_finish_guard: "fetchingRef (fst (fetchAllPosts_finish L scan multi st)) = False"
  by (simp add: fetchAllPosts_finish_def Let_def split: sum.splits)

lemma fetchCommentsForPost_finish_guard: "fetchingRef (fetchCommentsForPost_finish response st) = None"
  by (simp add: fetchCommentsForPost_finish_def Let_def split: sum.splits)

lemma fetchProfile_finish_guard: "fetchingRef (fetchProfile_finish L wallet response st) = False"
  by (simp add: fetchProfile_finish_def Let_def split: sum.splits)

lemma fetchAllProfiles_finish_guard: "fetchingRef (fst (fetchAllProfiles_finish L w scan multi st)) = False"
  by (simp add: fetchAllProfiles_finish_def Let_def split: sum.splits)

lemma fetchAllPosts_guard_free:
  "\<not> fetchingRef st \<Longrightarrow> \<not> fetchingRef (fst (fetchAllPosts L wallet scan multi st))"
  by (cases wallet) (simp_all add: fetchAllPosts_def fetchAllPosts_start_def fetchAllPosts_finish_guard)

lemma fetchCommentsForPost_guard_free:
  "fetchingRef st = None \<Longrightarrow> fetchingRef (fst (fetchCommentsForPost L wallet postPda response st)) = None"
  by (cases wallet)
     (simp_all add: fetchCommentsForPost_def fetchCommentsForPost_start_def
        fetchCommentsForPost_finish_guard Let_def)

lemma fetchProfile_guard_free:
  "\<not> fetchingRef st \<Longrightarrow> \<not> fetchingRef (fst (fetchProfile L wallet response st))"
  by (cases wallet)
     (simp_all add: fetchProfile_def fetchProfile_start_def profilePda_def fetchProfile_finish_guard)

lemma fetchAllProfiles_guard_free:
  "\<not> fetchingRef st \<Longrightarrow> \<not> fetchingRef (fst (fetchAllProfiles L wallet scan multi st))"
  by (cases wallet)
     (simp_all add: fetchAllProfiles_def fetchAllProfiles_start_def fetchAllProfiles_finish_guard)

subsection \<open>C3: one outstanding read per key\<close>

lemma usePost_step_inv: "usePost_inv s \<Longrightarrow> usePost_inv (usePost_step L wallet e s)"
proof (cases s)
  case (Pair st n)
  assume "usePost_inv s"
  with Pair show ?thesis
    by (cases e; cases wallet)
       (auto simp: usePost_inv_def fetchAllPosts_start_def fetchAllPosts_finish_guard)
qed

lemma usePost_run_inv: "usePost_inv s \<Longrightarrow> usePost_inv (usePost_run L wallet es s)"
  unfolding usePost_run_def
  by (induction es arbitrary: s) (simp_all add: usePost_step_inv)

lemma usePost_one_outstanding:
  "\<not> fetchingRef st \<Longrightarrow> snd (usePost_run L wallet es (st, 0)) \<le> 1"
  using usePost_run_inv [of "(st, 0)" L wallet es] by (simp add: usePost_inv_def)

lemma comments_back_to_back:
  "useComments_step L wallet (CallFetchComments postPda)
     (useComments_step L (Some w) (CallFetchComments postPda) (st, outstanding))
   = useComments_step L (Some w) (CallFetchComments postPda) (st, outstanding)"
  by (cases wallet) (simp_all add: fetchCommentsForPost_start_def Let_def)

lemma comments_guard_released_by_other_answer:
  "useComments_run toy_lib (Some (PublicKey ''U1''))
     [CallFetchComments (PublicKey ''A''), CallFetchComments (PublicKey ''B''),
      AnswerFetchComments 0 (Inr []), CallFetchComments (PublicKey ''B'')]
     (initial_useComments, [])
   = (\<lparr>isLoading = True, error = None, fetchingRef = Some ''B'', comments = []\<rparr>,
      [PublicKey ''B'', PublicKey ''B''])"
  by (simp add: useComments_run_def fetchCommentsForPost_start_def toy_lib_def
      initial_useComments_def fetchCommentsForPost_finish_def sortComments_def Let_def)

text \<open>
  C3 holds for the boolean guard of \<open>fetchAllPosts\<close> (lemma \<open>usePost_one_outstanding\<close>
  above) and for two calls for the same post back to back (lemma
  \<open>comments_back_to_back\<close>), and fails for \<open>useComments\<close> when calls for two posts
  interleave: its guard is one slot holding the key of the last call. After calls for
  \<open>A\<close>, \<open>B\<close> and \<open>A\<close> again, with no answer yet, two reads for \<open>A\<close> are outstanding.
\<close>

theorem C3_comments_duplicate_read:
  "useComments_run toy_lib (Some (PublicKey ''U1''))
     [CallFetchComments (PublicKey ''A''), CallFetchComments (PublicKey ''B''),
      CallFetchComments (PublicKey ''A'')] (initial_useComments, [])
   = (\<lparr>isLoading = True, error = None, fetchingRef = Some ''A'', comments = []\<rparr>,
      [PublicKey ''A'', PublicKey ''B'', PublicKey ''A''])"
  by (simp add: useComments_run_def fetchCommentsForPost_start_def toy_lib_def
      initial_useComments_def Let_def)

subsection \<open>C4: the in-flight guard is released on every exit path\<close>

text \<open>
  C4: whatever the ledger answers (an account, a list, or an error thrown), the rest of
  each guarded fetch (\<open>fetchAllPosts\<close>, \<open>fetchCommentsForPost\<close>, \<open>fetchProfile\<close>,
  \<open>fetchAllProfiles\<close>) ends with the guard cleared; and a whole fetch that is called with
  the guard free ends with the guard free on every path, the early returns included. No
  completed or failed fetch leaves the key blocked.
\<close>

theorem C4_guard_released:
  "fetchingRef (fst (fetchAllPosts_finish L scan multi st)) = False
   \<and> fetchingRef (fetchCommentsForPost_finish response st2) = None
   \<and> fetchingRef (fetchProfile_finish L wallet presp st3) = False
   \<and> fetchingRef (fst (fetchAllProfiles_finish L w pscan pmulti st4)) = False
   \<and> (\<not> fetchingRef st \<longrightarrow> \<not> fetchingRef (fst (fetchAllPosts L wallet scan multi st)))
   \<and> (fetchingRef st2 = None \<longrightarrow>
        fetchingRef (fst (fetchCommentsForPost L wallet postPda response st2)) = None)
   \<and> (\<not> fetchingRef st3 \<longrightarrow> \<not> fetchingRef (fst (fetchProfile L wallet presp st3)))
   \<and> (\<not> fetchingRef st4 \<longrightarrow> \<not> fetchingRef (fst (fetchAllProfiles L wallet pscan pmulti st4)))"
  by (simp add: fetchAllPosts_finish_guard fetchCommentsForPost_finish_guard
      fetchProfile_finish_guard fetchAllProfiles_finish_guard fetchAllPosts_guard_free
      fetchCommentsForPost_guard_free fetchProfile_guard_free fetchAllProfiles_guard_free)

theorem C4_guard_released_witness:
  "fetchingRef (fst (fetchAllPosts toy_lib (Some (PublicKey ''U1'')) (Inl (JsError ''boom'' None))
      (Inl (JsError ''boom'' None)) initial_usePost)) = False
   \<and> snd (fetchAllPosts toy_lib (Some (PublicKey ''U1'')) (Inl (JsError ''boom'' None))
      (Inl (JsError ''boom'' None)) initial_usePost) = [PostAll]
   \<and> fetchingRef (fst (fetchCommentsForPost toy_lib (Some (PublicKey ''U1'')) (PublicKey ''Q1'')
      (Inr []) initial_useComments)) = None
   \<and> fetchingRef (fst (fetchProfile toy_lib (Some (PublicKey ''U1''))
      (Inl (JsError ''Account does not exist or has no data'' None)) initial_useUserProfile)) = False
   \<and> fetchingRef (fst (fetchAllProfiles toy_lib (Some (PublicKey ''U1'')) (Inr [])
      (Inl (JsError ''boom'' None)) initial_useProfiles)) = False"
proof -
  have a: "\<not> fetchingRef initial_usePost" "fetchingRef initial_useComments = None"
    "\<not> fetchingRef initial_useUserProfile" "\<not> fetchingRef initial_useProfiles"
    by (simp_all add: initial_usePost_def initial_useComments_def initial_useUserProfile_def
        initial_useProfiles_def)
  have b: "snd (fetchAllPosts toy_lib (Some (PublicKey ''U1'')) (Inl (JsError ''boom'' None))
      (Inl (JsError ''boom'' None)) initial_usePost) = [PostAll]"
    by (simp add: fetchAllPosts_def fetchAllPosts_start_def initial_usePost_def
        fetchAllPosts_finish_def fetchAllPosts_try_def)
  show ?thesis
    using a b
      C4_guard_released [of toy_lib "Inl (JsError ''boom'' None)" "Inl (JsError ''boom'' None)"
        initial_usePost "Inr []" initial_useComments "Some (PublicKey ''U1'')"
        "Inl (JsError ''Account does not exist or has no data'' None)" initial_useUserProfile
        "PublicKey ''U1''" "Inr []" "Inl (JsError ''boom'' None)" initial_useProfiles
        "PublicKey ''Q1''"]
    by simp
qed

subsection \<open>C5: a change of the actor identity\<close>

text \<open>
  C5, as stated, fails: when the wallet changes from \<open>U1\<close> to \<open>U2\<close> the effect starts the
  fetch for \<open>U2\<close> and the profile populated under \<open>U1\<close> is still the snapshot.
\<close>

theorem C5_snapshot_kept_on_identity_change:
  "useUserProfile_effect toy_lib (Some (PublicKey ''U2''))
      (initial_useUserProfile\<lparr>profile := Some alice, lastWalletRef := Some ''U1''\<rparr>)
     = (\<lparr>isLoading = True, error = None, fetchingRef = True, profile = Some alice,
         lastWalletRef = Some ''U1''\<rparr>,
        [UserProfileFetch (PublicKey ''11111110profile110U2'')])"
  by (simp add: useUserProfile_effect_def fetchProfile_start_def profilePda_def
      currentWalletKey_def toy_lib_def initial_useUserProfile_def)

text \<open>
  C5, amended: when the actor identity becomes absent, the profile snapshot is set to
  null, the last-actor marker is reset and the profiles collection is set to empty, and
  no fetch is attempted. When it changes to a connected identity whose key differs from
  the last-actor marker and no profile fetch is in flight, the effect attempts a fetch
  of that identity's profile address and leaves the previous snapshot in place until the
  answer arrives; an account that converts replaces the snapshot and a not-found answer
  sets it to null.
\<close>

theorem C5_identity_change:
  "useUserProfile_effect L None st = (st\<lparr>profile := None, lastWalletRef := None\<rparr>, [])
   \<and> useProfiles_effect None st2 = (st2\<lparr>profiles := []\<rparr>, [])
   \<and> (currentWalletKey L (Some w) \<noteq> lastWalletRef st \<and> \<not> fetchingRef st \<longrightarrow>
        useUserProfile_effect L (Some w) st
          = (st\<lparr>fetchingRef := True, isLoading := True, error := None\<rparr>,
             [UserProfileFetch (the (profilePda L (Some w)))]))
   \<and> (userProfile_of a = Inr a \<longrightarrow>
        profile (fetchProfile_finish L (Some w) (Inr a) st) = Some a)
   \<and> (str_includes (message err) ''Account does not exist'' \<longrightarrow>
        profile (fetchProfile_finish L (Some w) (Inl err) st) = None)"
  by (simp add: useUserProfile_effect_def useProfiles_effect_def fetchProfile_start_def
      profilePda_def fetchProfile_finish_def fetchProfile_catch_def)

theorem C5_identity_change_witness:
  "useUserProfile_effect toy_lib (Some (PublicKey ''U2''))
      (initial_useUserProfile\<lparr>profile := Some alice, lastWalletRef := Some ''U1''\<rparr>)
     = (\<lparr>isLoading = True, error = None, fetchingRef = True, profile = Some alice,
         lastWalletRef = Some ''U1''\<rparr>,
        [UserProfileFetch (PublicKey ''11111110profile110U2'')])
   \<and> profile (fetchProfile_finish toy_lib (Some (PublicKey ''U2'')) (Inr bob)
        (initial_useUserProfile\<lparr>profile := Some alice, lastWalletRef := Some ''U1''\<rparr>))
       = Some bob
   \<and> profile (fetchProfile_finish toy_lib (Some (PublicKey ''U2''))
        (Inl (JsError ''Account does not exist or has no data'' None))
        (initial_useUserProfile\<lparr>profile := Some alice, lastWalletRef := Some ''U1''\<rparr>))
       = None"
proof -
  have k: "currentWalletKey toy_lib (Some (PublicKey ''U2'')) = Some ''U2''"
    by (simp add: currentWalletKey_def toy_lib_def)
  have p: "the (profilePda toy_lib (Some (PublicKey ''U2'')))
             = PublicKey ''11111110profile110U2''"
    by (simp add: profilePda_def toy_lib_def)
  have u: "userProfile_of bob = Inr bob"
    by (simp add: userProfile_of_def bob_def toNumber_def)
  have i: "str_includes ''Account does not exist or has no data'' ''Account does not exist''"
    by simp
  show ?thesis
    using C5_identity_change [of toy_lib
        "initial_useUserProfile\<lparr>profile := Some alice, lastWalletRef := Some ''U1''\<rparr>"
        initial_useProfiles "PublicKey ''U2''" bob
        "JsError ''Account does not exist or has no data'' None"]
    by (simp add: k p u i initial_useUserProfile_def)
qed

subsection \<open>C6: the order of the fetched lists\<close>

text \<open>
  C6, as stated, fails on ties: the comparator of \<open>fetchAllPosts\<close> reads the creation
  timestamp only, and the sort is stable, so two posts with one timestamp stay in the
  order of the scan. Scanned as \<open>B\<close>, \<open>A\<close> they are listed as \<open>B\<close>, \<open>A\<close>, not by address bytes
  ascending.
\<close>

theorem C6_ties_not_by_address:
  "map publicKey
     (allPosts (fst (fetchAllPosts toy_lib (Some (PublicKey ''U1''))
        (Inr [\<lparr>publicKey = PublicKey ''B'', account = sample_post (PublicKey ''U2'') 5\<rparr>,
              \<lparr>publicKey = PublicKey ''A'', account = sample_post (PublicKey ''U3'') 5\<rparr>])
        (Inr (\<lambda>a. None)) initial_usePost)))
     = [PublicKey ''B'', PublicKey ''A'']
   \<and> \<not> spec_posts_sorted
     (allPosts (fst (fetchAllPosts toy_lib (Some (PublicKey ''U1''))
        (Inr [\<lparr>publicKey = PublicKey ''B'', account = sample_post (PublicKey ''U2'') 5\<rparr>,
              \<lparr>publicKey = PublicKey ''A'', account = sample_post (PublicKey ''U3'') 5\<rparr>])
        (Inr (\<lambda>a. None)) initial_usePost)))"
  by (simp add: fetchAllPosts_def fetchAllPosts_start_def fetchAllPosts_finish_def
      fetchAllPosts_try_def initial_usePost_def uniqueCreators_def deriveProfilePdas_def
      buildProfileMap_def profileMap_step_def withHandle_def sortPosts_def Number_of_def
      sample_post_def Map_has_def Map_set_def Map_get_def creatorProfilePda_def
      fallbackHandle_def spec_posts_sorted_def spec_post_before_def toy_lib_def Let_def
      program_def provider_def)

lemma commentsList_of_safe:
  assumes "\<forall>c \<in> set cs. \<bar>comment_createdAt (account c)\<bar> < 2 ^ 53
             \<and> \<bar>comment_updatedAt (account c)\<bar> < 2 ^ 53"
  shows "commentsList_of cs = Inr (map account cs)"
  using assms by (induction cs) (simp_all add: toNumber_def Let_def)

lemma sortPosts_sorted:
  assumes "\<forall>p \<in> set ps. \<bar>post_created_at (account p)\<bar> < 2 ^ 53"
  shows "sorted_wrt (\<lambda>a b. post_created_at (account a) \<ge> post_created_at (account b))
           (sortPosts L ps)"
proof -
  let ?k = "\<lambda>p. - Number_of L (post_created_at (account p))"
  have "sorted (map ?k (sort_key ?k ps))" by (rule sorted_sort_key)
  then have "sorted_wrt (\<lambda>a b. ?k a \<le> ?k b) (sortPosts L ps)"
    by (simp add: sorted_map sortPosts_def)
  moreover have "\<And>a b. a \<in> set (sortPosts L ps) \<Longrightarrow> b \<in> set (sortPosts L ps) \<Longrightarrow> ?k a \<le> ?k b
      \<Longrightarrow> post_created_at (account a) \<ge> post_created_at (account b)"
    using assms by (simp add: sortPosts_def Number_of_def)
  ultimately show ?thesis by (rule sorted_wrt_mono_rel [rotated])
qed

lemma sortPosts_stable:
  assumes "\<forall>p \<in> set ps. \<bar>post_created_at (account p)\<bar> < 2 ^ 53"
  shows "filter (\<lambda>p. post_created_at (account p) = t) (sortPosts L ps)
           = filter (\<lambda>p. post_created_at (account p) = t) ps"
proof -
  let ?k = "\<lambda>p. - Number_of L (post_created_at (account p))"
  have n: "\<And>p. p \<in> set ps \<Longrightarrow>
             Number_of L (post_created_at (account p)) = post_created_at (account p)"
    using assms by (simp add: Number_of_def)
  have "filter (\<lambda>p. post_created_at (account p) = t) (sortPosts L ps)
          = filter (\<lambda>p. ?k p = - t) (sort_key ?k ps)"
    unfolding sortPosts_def by (rule filter_cong) (simp_all add: n)
  also have "\<dots> = filter (\<lambda>p. ?k p = - t) ps" by (rule sort_key_stable)
  also have "\<dots> = filter (\<lambda>p. post_created_at (account p) = t) ps"
    by (rule filter_cong) (simp_all add: n)
  finally show ?thesis .
qed

lemma sortComments_sorted:
  "sorted_wrt (\<lambda>a b. comment_createdAt a \<le> comment_createdAt b) (sortComments cs)"
  using sorted_sort_key [of comment_createdAt cs] by (simp add: sorted_map sortComments_def)

lemma sortComments_stable:
  "filter (\<lambda>c. comment_createdAt c = t) (sortComments cs)
     = filter (\<lambda>c. comment_createdAt c = t) cs"
  unfolding sortComments_def by (rule sort_key_stable)

lemma allPosts_finish_success:
  "allPosts (fst (fetchAllPosts_finish L (Inr ps) (Inr ledger) st))
     = sortPosts L (map (withHandle L
         (buildProfileMap L (snd (deriveProfilePdas L (uniqueCreators L ps)))
            (map ledger (fst (deriveProfilePdas L (uniqueCreators L ps))))
            (fst (deriveProfilePdas L (uniqueCreators L ps))))) ps)"
  by (simp add: fetchAllPosts_finish_def fetchAllPosts_try_def Let_def)

text \<open>
  C6, amended: with timestamps that are safe integers, a fetched post list is in
  non-increasing order of creation timestamp (newest first) and posts with one timestamp
  keep the order of the scan; a fetched comment list is in non-decreasing order of
  creation timestamp (oldest first) and comments with one timestamp keep the order of
  the scan.
\<close>

theorem C6_fetched_lists_sorted:
  assumes "\<forall>p \<in> set ps. \<bar>post_created_at (account p)\<bar> < 2 ^ 53"
    and "\<forall>c \<in> set cs. \<bar>comment_createdAt (account c)\<bar> < 2 ^ 53
           \<and> \<bar>comment_updatedAt (account c)\<bar> < 2 ^ 53"
  shows "sorted_wrt (\<lambda>a b. post_created_at (account a) \<ge> post_created_at (account b))
           (allPosts (fst (fetchAllPosts_finish L (Inr ps) (Inr ledger) st)))
       \<and> (\<forall>t. map (\<lambda>p. (publicKey p, account p))
                 (filter (\<lambda>p. post_created_at (account p) = t)
                    (allPosts (fst (fetchAllPosts_finish L (Inr ps) (Inr ledger) st))))
               = map (\<lambda>p. (publicKey p, account p))
                   (filter (\<lambda>p. post_created_at (account p) = t) ps))
       \<and> sorted_wrt (\<lambda>a b. comment_createdAt a \<le> comment_createdAt b)
           (comments (fetchCommentsForPost_finish (Inr cs) st2))
       \<and> (\<forall>t. filter (\<lambda>c. comment_createdAt c = t)
                 (comments (fetchCommentsForPost_finish (Inr cs) st2))
               = filter (\<lambda>c. comment_createdAt c = t) (map account cs))"
proof -
  let ?m = "buildProfileMap L (snd (deriveProfilePdas L (uniqueCreators L ps)))
            (map ledger (fst (deriveProfilePdas L (uniqueCreators L ps))))
            (fst (deriveProfilePdas L (uniqueCreators L ps)))"
  let ?ws = "map (withHandle L ?m) ps"
  have safe: "\<forall>p \<in> set ?ws. \<bar>post_created_at (account p)\<bar> < 2 ^ 53"
    using assms(1) by simp
  have a: "sorted_wrt (\<lambda>a b. post_created_at (account a) \<ge> post_created_at (account b))
           (allPosts (fst (fetchAllPosts_finish L (Inr ps) (Inr ledger) st)))"
    unfolding allPosts_finish_success by (rule sortPosts_sorted [OF safe])
  have b: "map (\<lambda>p. (publicKey p, account p))
                 (filter (\<lambda>p. post_created_at (account p) = t)
                    (allPosts (fst (fetchAllPosts_finish L (Inr ps) (Inr ledger) st))))
               = map (\<lambda>p. (publicKey p, account p))
                   (filter (\<lambda>p. post_created_at (account p) = t) ps)" for t
    unfolding allPosts_finish_success sortPosts_stable [OF safe]
    by (simp add: filter_map comp_def)
  have c: "comments (fetchCommentsForPost_finish (Inr cs) st2) = sortComments (map account cs)"
    by (simp add: fetchCommentsForPost_finish_def commentsList_of_safe [OF assms(2)])
  show ?thesis
    using a b by (simp add: c sortComments_sorted sortComments_stable)
qed

theorem C6_fetched_lists_sorted_witness:
  "allPosts (fst (fetchAllPosts_finish toy_lib
      (Inr [\<lparr>publicKey = PublicKey ''B'', account = sample_post (PublicKey ''U2'') 5\<rparr>,
            \<lparr>publicKey = PublicKey ''C'', account = sample_post (PublicKey ''U2'') 9\<rparr>,
            \<lparr>publicKey = PublicKey ''A'', account = sample_post (PublicKey ''U3'') 5\<rparr>])
      (Inr (\<lambda>a. None)) initial_usePost))
     = [\<lparr>publicKey = PublicKey ''C'', account = sample_post (PublicKey ''U2'') 9,
          creatorHandle = ''User U2...''\<rparr>,
        \<lparr>publicKey = PublicKey ''B'', account = sample_post (PublicKey ''U2'') 5,
          creatorHandle = ''User U2...''\<rparr>,
        \<lparr>publicKey = PublicKey ''A'', account = sample_post (PublicKey ''U3'') 5,
          creatorHandle = ''User U3...''\<rparr>]
   \<and> sorted_wrt (\<lambda>a b. post_created_at (account a) \<ge> post_created_at (account b))
       (allPosts (fst (fetchAllPosts_finish toy_lib
          (Inr [\<lparr>publicKey = PublicKey ''B'', account = sample_post (PublicKey ''U2'') 5\<rparr>,
                \<lparr>publicKey = PublicKey ''C'', account = sample_post (PublicKey ''U2'') 9\<rparr>,
                \<lparr>publicKey = PublicKey ''A'', account = sample_post (PublicKey ''U3'') 5\<rparr>])
          (Inr (\<lambda>a. None)) initial_usePost)))
   \<and> sorted_wrt (\<lambda>a b. comment_createdAt a \<le> comment_createdAt b)
       (comments (fetchCommentsForPost_finish
          (Inr [\<lparr>publicKey = PublicKey ''c1'', account = sample_comment ''later'' 8\<rparr>,
                \<lparr>publicKey = PublicKey ''c2'', account = sample_comment ''first'' 3\<rparr>])
          initial_useComments))
   \<and> comments (fetchCommentsForPost_finish
          (Inr [\<lparr>publicKey = PublicKey ''c1'', account = sample_comment ''later'' 8\<rparr>,
                \<lparr>publicKey = PublicKey ''c2'', account = sample_comment ''first'' 3\<rparr>])
          initial_useComments)
     = [sample_comment ''first'' 3, sample_comment ''later'' 8]"
proof -
  let ?ps = "[\<lparr>publicKey = PublicKey ''B'', account = sample_post (PublicKey ''U2'') 5\<rparr>,
            \<lparr>publicKey = PublicKey ''C'', account = sample_post (PublicKey ''U2'') 9\<rparr>,
            \<lparr>publicKey = PublicKey ''A'', account = sample_post (PublicKey ''U3'') 5\<rparr>]"
  let ?cs = "[\<lparr>publicKey = PublicKey ''c1'', account = sample_comment ''later'' 8\<rparr>,
                \<lparr>publicKey = PublicKey ''c2'', account = sample_comment ''first'' 3\<rparr>]"
  have h1: "\<forall>p \<in> set ?ps. \<bar>post_created_at (account p)\<bar> < 2 ^ 53"
    by (simp add: sample_post_def)
  have h2: "\<forall>c \<in> set ?cs. \<bar>comment_createdAt (account c)\<bar> < 2 ^ 53
           \<and> \<bar>comment_updatedAt (account c)\<bar> < 2 ^ 53"
    by (simp add: sample_comment_def)
  have v: "allPosts (fst (fetchAllPosts_finish toy_lib (Inr ?ps) (Inr (\<lambda>a. None)) initial_usePost))
     = [\<lparr>publicKey = PublicKey ''C'', account = sample_post (PublicKey ''U2'') 9,
          creatorHandle = ''User U2...''\<rparr>,
        \<lparr>publicKey = PublicKey ''B'', account = sample_post (PublicKey ''U2'') 5,
          creatorHandle = ''User U2...''\<rparr>,
        \<lparr>publicKey = PublicKey ''A'', account = sample_post (PublicKey ''U3'') 5,
          creatorHandle = ''User U3...''\<rparr>]"
    by (simp add: fetchAllPosts_finish_def
      fetchAllPosts_try_def initial_usePost_def uniqueCreators_def deriveProfilePdas_def
      buildProfileMap_def profileMap_step_def withHandle_def sortPosts_def Number_of_def
      sample_post_def Map_has_def Map_set_def Map_get_def creatorProfilePda_def
      fallbackHandle_def toy_lib_def Let_def)
  have w: "comments (fetchCommentsForPost_finish (Inr ?cs) initial_useComments)
     = [sample_comment ''first'' 3, sample_comment ''later'' 8]"
    by (simp add: fetchCommentsForPost_finish_def sortComments_def sample_comment_def
        toNumber_def Let_def initial_useComments_def)
  from C6_fetched_lists_sorted [OF h1 h2, of toy_lib "\<lambda>a. None" initial_usePost
      initial_useComments] v w
  show ?thesis by simp
qed

subsection \<open>C7: the fallback handle\<close>

lemma profileMap_step_keys:
  assumes "k \<in> fst ` set (profileMap_step L c2p e m)"
  shows "k \<in> fst ` set m
       \<or> (\<exists>info d. fst e = Some info \<and> decodeUserProfile L (data info) = Inr d
                    \<and> find_key c2p (snd e) = Some k)"
  using assms
  by (auto simp: profileMap_step_def Map_set_def dom_update
      split: option.splits sum.splits if_splits)

lemma buildProfileMap_keys:
  assumes "k \<in> fst ` set (fold (profileMap_step L c2p) es m)"
  shows "k \<in> fst ` set m
       \<or> (\<exists>e \<in> set es. \<exists>info d. fst e = Some info \<and> decodeUserProfile L (data info) = Inr d
                    \<and> find_key c2p (snd e) = Some k)"
  using assms
proof (induction es arbitrary: m)
  case Nil
  then show ?case by simp
next
  case (Cons e es)
  from Cons.IH [of "profileMap_step L c2p e m"] Cons.prems
  have "k \<in> fst ` set (profileMap_step L c2p e m)
      \<or> (\<exists>e \<in> set es. \<exists>info d. fst e = Some info \<and> decodeUserProfile L (data info) = Inr d
                    \<and> find_key c2p (snd e) = Some k)"
    by simp
  then show ?case
    using profileMap_step_keys [of k L c2p e m] by auto
qed

lemma profileMap_no_key:
  assumes inj: "inj_on (toBase58 L) ((\<lambda>p. post_creator (account p)) ` set ps)"
    and p: "p \<in> set ps"
    and bad: "case ledger (creatorProfilePda L (post_creator (account p))) of
                None \<Rightarrow> True
              | Some info \<Rightarrow> isl (decodeUserProfile L (data info))"
  shows "Map_get (buildProfileMap L (snd (deriveProfilePdas L (uniqueCreators L ps)))
            (map ledger (fst (deriveProfilePdas L (uniqueCreators L ps))))
            (fst (deriveProfilePdas L (uniqueCreators L ps))))
           (toBase58 L (post_creator (account p))) = None"
proof (rule ccontr)
  let ?uc = "uniqueCreators L ps"
  let ?c2p = "snd (deriveProfilePdas L ?uc)"
  let ?pdas = "fst (deriveProfilePdas L ?uc)"
  let ?k = "toBase58 L (post_creator (account p))"
  assume "Map_get (buildProfileMap L ?c2p (map ledger ?pdas) ?pdas) ?k \<noteq> None"
  then have "?k \<in> fst ` set (fold (profileMap_step L ?c2p) (zip (map ledger ?pdas) ?pdas) [])"
    by (simp add: Map_get_def buildProfileMap_def map_of_eq_None_iff)
  from buildProfileMap_keys [OF this]
  obtain e info d where e: "e \<in> set (zip (map ledger ?pdas) ?pdas)"
    and i: "fst e = Some info" and d: "decodeUserProfile L (data info) = Inr d"
    and f: "find_key ?c2p (snd e) = Some ?k"
    by auto
  from zip_map_self [OF e] i have l: "ledger (snd e) = Some info" by simp
  from find_key_SomeD [OF f] creatorToPda_entries [of L ?uc]
  obtain u where u: "u \<in> set ?uc" and k: "?k = toBase58 L (snd u)"
    and q: "snd e = creatorProfilePda L (snd u)"
    by auto
  from u uniqueCreators_keys(3) [of L ps]
  obtain p0 where p0: "p0 \<in> set ps" and c0: "snd u = post_creator (account p0)"
    by auto
  from inj p p0 k c0 have "post_creator (account p) = snd u"
    by (auto dest: inj_onD)
  with q l have "ledger (creatorProfilePda L (post_creator (account p))) = Some info" by simp
  with bad d show False by simp
qed

lemma error_finish_success:
  "error (fst (fetchAllPosts_finish L (Inr ps) (Inr ledger) st)) = error st"
  by (simp add: fetchAllPosts_finish_def fetchAllPosts_try_def Let_def)

text \<open>
  C7: let the scan return the posts \<open>ps\<close> and the batch read answer with the ledger's
  accounts, creator keys printing injectively. For a post of \<open>ps\<close> whose creator has no
  profile account, or one that fails to decode, the merged list holds that post with the
  fallback handle \<open>User \<close> + the first 8 characters of the creator key + \<open>...\<close>; the merged
  list holds exactly the posts of the scan; and no error is recorded.
\<close>

theorem C7_fallback_handle:
  assumes "inj_on (toBase58 L) ((\<lambda>p. post_creator (account p)) ` set ps)"
    and "p \<in> set ps"
    and "case ledger (creatorProfilePda L (post_creator (account p))) of
           None \<Rightarrow> True
         | Some info \<Rightarrow> isl (decodeUserProfile L (data info))"
  shows "\<lparr>publicKey = publicKey p, account = account p,
          creatorHandle = fallbackHandle (toBase58 L (post_creator (account p)))\<rparr>
           \<in> set (allPosts (fst (fetchAllPosts_finish L (Inr ps) (Inr ledger) st)))
       \<and> mset (map (\<lambda>q. (publicKey q, account q))
                 (allPosts (fst (fetchAllPosts_finish L (Inr ps) (Inr ledger) st))))
           = mset (map (\<lambda>q. (publicKey q, account q)) ps)
       \<and> error (fst (fetchAllPosts_finish L (Inr ps) (Inr ledger) st)) = error st"
proof -
  let ?m = "buildProfileMap L (snd (deriveProfilePdas L (uniqueCreators L ps)))
            (map ledger (fst (deriveProfilePdas L (uniqueCreators L ps))))
            (fst (deriveProfilePdas L (uniqueCreators L ps)))"
  let ?ws = "map (withHandle L ?m) ps"
  have n: "Map_get ?m (toBase58 L (post_creator (account p))) = None"
    using assms by (rule profileMap_no_key)
  have w: "withHandle L ?m p
             = \<lparr>publicKey = publicKey p, account = account p,
                creatorHandle = fallbackHandle (toBase58 L (post_creator (account p)))\<rparr>"
    unfolding withHandle_def Let_def n by simp
  have o: "allPosts (fst (fetchAllPosts_finish L (Inr ps) (Inr ledger) st)) = sortPosts L ?ws"
    by (rule allPosts_finish_success)
  have "withHandle L ?m p \<in> set ?ws"
    using assms(2) by (rule imageI [of p "set ps" "withHandle L ?m", unfolded set_map [symmetric]])
  then have "withHandle L ?m p \<in> set (sortPosts L ?ws)"
    by (simp only: sortPosts_def set_sort)
  then have a: "\<lparr>publicKey = publicKey p, account = account p,
          creatorHandle = fallbackHandle (toBase58 L (post_creator (account p)))\<rparr>
           \<in> set (allPosts (fst (fetchAllPosts_finish L (Inr ps) (Inr ledger) st)))"
    by (simp only: o w)
  let ?g = "\<lambda>q::PostWithHandle. (publicKey q, account q)"
  have e1: "mset (sortPosts L ?ws) = mset ?ws"
    by (simp only: sortPosts_def mset_sort)
  have e2: "map ?g ?ws = map (\<lambda>q. (publicKey q, account q)) ps"
    by (simp add: comp_def)
  have "mset (map ?g (sortPosts L ?ws)) = image_mset ?g (mset (sortPosts L ?ws))"
    by (rule mset_map)
  also have "\<dots> = image_mset ?g (mset ?ws)" by (simp only: e1)
  also have "\<dots> = mset (map ?g ?ws)" by (rule mset_map [symmetric])
  also have "\<dots> = mset (map (\<lambda>q. (publicKey q, account q)) ps)" by (simp only: e2)
  finally have b: "mset (map (\<lambda>q. (publicKey q, account q))
                 (allPosts (fst (fetchAllPosts_finish L (Inr ps) (Inr ledger) st))))
           = mset (map (\<lambda>q. (publicKey q, account q)) ps)"
    by (simp only: o)
  have c: "error (fst (fetchAllPosts_finish L (Inr ps) (Inr ledger) st)) = error st"
    by (rule error_finish_success)
  show ?thesis
    by (intro conjI) (rule a, rule b, rule c)
qed

lemma sample_scan_handles:
  "map creatorHandle
     (allPosts (fst (fetchAllPosts_finish toy_lib (Inr sample_scan) (Inr sample_ledger)
        initial_usePost)))
     = [''User U4...'', ''User U3longke...'', ''bob'']"
  by (simp add: fetchAllPosts_finish_def
      fetchAllPosts_try_def initial_usePost_def uniqueCreators_def deriveProfilePdas_def
      buildProfileMap_def profileMap_step_def withHandle_def sortPosts_def Number_of_def
      sample_post_def Map_has_def Map_set_def Map_get_def creatorProfilePda_def
      fallbackHandle_def toy_lib_def Let_def sample_scan_def sample_ledger_def toy_decode_def
      find_key_def)

theorem C7_fallback_handle_witness:
  "\<lparr>publicKey = PublicKey ''B'', account = sample_post (PublicKey ''U3longkey'') 6,
     creatorHandle = ''User U3longke...''\<rparr>
     \<in> set (allPosts (fst (fetchAllPosts_finish toy_lib (Inr sample_scan) (Inr sample_ledger)
               initial_usePost)))
   \<and> map creatorHandle
       (allPosts (fst (fetchAllPosts_finish toy_lib (Inr sample_scan) (Inr sample_ledger)
          initial_usePost)))
     = [''User U4...'', ''User U3longke...'', ''bob'']
   \<and> error (fst (fetchAllPosts_finish toy_lib (Inr sample_scan) (Inr sample_ledger)
                   initial_usePost)) = None"
proof -
  let ?p = "\<lparr>publicKey = PublicKey ''B'', account = sample_post (PublicKey ''U3longkey'') 6\<rparr>"
  have h1: "inj_on (toBase58 toy_lib) ((\<lambda>p. post_creator (account p)) ` set sample_scan)"
    by (simp add: toy_lib_def sample_scan_def sample_post_def)
  have h2: "?p \<in> set sample_scan" by (simp add: sample_scan_def)
  have h3: "case sample_ledger (creatorProfilePda toy_lib (post_creator (account ?p))) of
              None \<Rightarrow> True
            | Some info \<Rightarrow> isl (decodeUserProfile toy_lib (data info))"
    by (simp add: sample_ledger_def creatorProfilePda_def toy_lib_def sample_post_def
        toy_decode_def)
  have f: "fallbackHandle (toBase58 toy_lib
              (post_creator (sample_post (PublicKey ''U3longkey'') 6))) = ''User U3longke...''"
    by (simp add: fallbackHandle_def toy_lib_def sample_post_def)
  have g: "publicKey ?p = PublicKey ''B''" "account ?p = sample_post (PublicKey ''U3longkey'') 6"
    by simp_all
  have i: "error initial_usePost = None" by (simp add: initial_usePost_def)
  from C7_fallback_handle [where ledger = sample_ledger and st = initial_usePost, OF h1 h2 h3]
    sample_scan_handles
  show ?thesis unfolding g f i by blast
qed

subsection \<open>C8: a record that does not exist\<close>

lemma fetchProfile_not_found:
  assumes "str_includes (message err) ''Account does not exist''"
    and "\<not> fetchingRef st" and "currentWalletKey L (Some w) \<noteq> lastWalletRef st \<or> profile st = None"
  shows "profile (fst (fetchProfile L (Some w) (Inl err) st)) = None
       \<and> error (fst (fetchProfile L (Some w) (Inl err) st)) = None"
  using assms
  by (auto simp add: fetchProfile_def fetchProfile_start_def profilePda_def fetchProfile_finish_def
      fetchProfile_catch_def)

text \<open>
  C8 holds for \<open>fetchProfile\<close> (lemma \<open>fetchProfile_not_found\<close> above) and fails for
  \<open>fetchPost\<close>: whatever error the read throws, the not-found error included, \<open>fetchPost\<close>
  leaves the hook state as it was (a post fetched earlier stays in \<open>post\<close>) and hands the
  caller the failure object \<open>{success: false, error}\<close>.
\<close>

theorem C8_fetchPost_not_found_is_failure:
  "fetchPost L (Some w) mediaUri (Inl err) st
     = (st, FetchFailure (getErrorMessage L (errorCode err)),
        [PostFetch (the (derivePostPda L (Some w) mediaUri (the (profilePda L (Some w)))))])"
  by (simp add: fetchPost_def profilePda_def derivePostPda_def)

subsection \<open>C9: the connected actor's own profile is filtered out\<close>

lemma profilesWithStatus_of_authority:
  "profilesWithStatus_of m L xs = Inr ps \<Longrightarrow> map authority ps = map (\<lambda>x. authority (account x)) xs"
proof (induction xs arbitrary: ps)
  case Nil
  then show ?case by simp
next
  case (Cons x xs)
  then show ?case
    by (auto simp: Let_def userProfile_of_def split: sum.splits)
qed

text \<open>
  C9: when the try block of \<open>fetchAllProfiles\<close> produces a list, every profile of it has
  an authority other than the connected wallet's key, and that list is what the hook
  stores in \<open>profiles\<close>.
\<close>

theorem C9_own_profile_filtered:
  assumes "fst (fetchAllProfiles_try L w scan multi) = Inr profilesWithStatus"
  shows "(\<forall>p \<in> set profilesWithStatus. authority p \<noteq> w)
       \<and> profiles (fst (fetchAllProfiles_finish L w scan multi st)) = profilesWithStatus
       \<and> (\<not> fetchingRef st \<longrightarrow>
            profiles (fst (fetchAllProfiles L (Some w) scan multi st)) = profilesWithStatus)"
proof -
  from assms obtain allProfiles m where
    s: "scan = Inr allProfiles"
    and p: "profilesWithStatus_of m L (filter (\<lambda>pa. authority (account pa) \<noteq> w) allProfiles)
              = Inr profilesWithStatus"
    by (auto simp: fetchAllProfiles_try_def Let_def split: sum.splits)
  have "map authority profilesWithStatus
          = map (\<lambda>x. authority (account x)) (filter (\<lambda>pa. authority (account pa) \<noteq> w) allProfiles)"
    by (rule profilesWithStatus_of_authority [OF p])
  then have "set (map authority profilesWithStatus) \<subseteq> {a. a \<noteq> w}"
    by auto
  then have a: "\<forall>p \<in> set profilesWithStatus. authority p \<noteq> w"
    by auto
  have b: "profiles (fst (fetchAllProfiles_finish L w scan multi st')) = profilesWithStatus" for st'
    using assms by (simp add: fetchAllProfiles_finish_def Let_def)
  have c: "\<not> fetchingRef st \<longrightarrow>
            profiles (fst (fetchAllProfiles L (Some w) scan multi st)) = profilesWithStatus"
    using b by (simp add: fetchAllProfiles_def fetchAllProfiles_start_def)
  from a b c show ?thesis by blast
qed

lemma toy_empty_ledger_try:
  "fst (fetchAllProfiles_try toy_lib (PublicKey ''U1'') (Inr [alice_account, bob_account])
          (Inr (\<lambda>a. None)))
     = Inr [\<lparr>authority = PublicKey ''U2'', handle = ''bob'', bio = [], avatarUri = [],
              createdAt = 7, updatedAt = 7, followerCount = 0, followingCount = 0,
              isFollowing = False, followPda = None\<rparr>]"
  by (simp add: fetchAllProfiles_try_def alice_account_def bob_account_def alice_def bob_def
      batchCheckFollowStatus_def deriveFollowPdas_def resultMap_step_def find_key_def
      Map_set_def Map_get_def toy_lib_def deriveFollowPda_def userProfile_of_def toNumber_def
      Let_def)

theorem C9_own_profile_filtered_witness:
  "profiles (fst (fetchAllProfiles toy_lib (Some (PublicKey ''U1''))
       (Inr [alice_account, bob_account]) (Inr (\<lambda>a. None)) initial_useProfiles))
     = [\<lparr>authority = PublicKey ''U2'', handle = ''bob'', bio = [], avatarUri = [],
          createdAt = 7, updatedAt = 7, followerCount = 0, followingCount = 0,
          isFollowing = False, followPda = None\<rparr>]
   \<and> authority \<lparr>authority = PublicKey ''U2'', handle = ''bob'', bio = [], avatarUri = [],
          createdAt = 7, updatedAt = 7, followerCount = 0, followingCount = 0,
          isFollowing = False, followPda = None\<rparr> \<noteq> PublicKey ''U1''"
  using C9_own_profile_filtered [OF toy_empty_ledger_try, of initial_useProfiles]
  by (simp add: initial_useProfiles_def)

subsection \<open>C10: the follow status of every authority\<close>

lemma deriveFollowPdas_fold:
  "fst (fold (\<lambda>authority acc. let pda = deriveFollowPda L w authority
                in (fst acc @ [pda], Map_set (snd acc) (toBase58 L authority) pda)) as acc)
     = fst acc @ map (deriveFollowPda L w) as
   \<and> set (snd (fold (\<lambda>authority acc. let pda = deriveFollowPda L w authority
                in (fst acc @ [pda], Map_set (snd acc) (toBase58 L authority) pda)) as acc))
       \<subseteq> set (snd acc) \<union> (\<lambda>a. (toBase58 L a, deriveFollowPda L w a)) ` set as
   \<and> fst ` set (snd (fold (\<lambda>authority acc. let pda = deriveFollowPda L w authority
                in (fst acc @ [pda], Map_set (snd acc) (toBase58 L authority) pda)) as acc))
       = fst ` set (snd acc) \<union> toBase58 L ` set as"
proof (induction as arbitrary: acc)
  case Nil
  then show ?case by simp
next
  case (Cons a as)
  let ?acc' = "(fst acc @ [deriveFollowPda L w a],
                AList.update (toBase58 L a) (deriveFollowPda L w a) (snd acc))"
  have s: "(let pda = deriveFollowPda L w a
            in (fst acc @ [pda], Map_set (snd acc) (toBase58 L a) pda)) = ?acc'"
    by (simp add: Map_set_def Let_def)
  show ?case
    unfolding fold_simps s
    using Cons.IH [of ?acc']
      set_update_subset [of "toBase58 L a" "deriveFollowPda L w a" "snd acc"]
      dom_update [of "toBase58 L a" "deriveFollowPda L w a" "snd acc"]
    by auto
qed

lemma followPdas_eq:
  "fst (deriveFollowPdas L w as) = map (deriveFollowPda L w) as"
  using deriveFollowPdas_fold [of L w as "([], [])"] by (simp add: deriveFollowPdas_def)

lemma authorityToFollowPda_entries:
  "set (snd (deriveFollowPdas L w as)) \<subseteq> (\<lambda>a. (toBase58 L a, deriveFollowPda L w a)) ` set as"
  using deriveFollowPdas_fold [of L w as "([], [])"] by (simp add: deriveFollowPdas_def)

lemma authorityToFollowPda_keys:
  "fst ` set (snd (deriveFollowPdas L w as)) = toBase58 L ` set as"
  using deriveFollowPdas_fold [of L w as "([], [])"] by (simp add: deriveFollowPdas_def)

lemma find_key_follow:
  assumes i1: "inj_on (toBase58 L) (set as)"
    and i2: "inj_on (deriveFollowPda L w) (set as)"
    and a: "a \<in> set as"
  shows "find_key (snd (deriveFollowPdas L w as)) (deriveFollowPda L w a) = Some (toBase58 L a)"
proof -
  let ?m = "snd (deriveFollowPdas L w as)"
  let ?P = "\<lambda>e. snd e = deriveFollowPda L w a"
  from a authorityToFollowPda_keys [of L w as]
  obtain q where q: "(toBase58 L a, q) \<in> set ?m" by force
  with authorityToFollowPda_entries [of L w as]
  obtain a' where "a' \<in> set as" "toBase58 L a = toBase58 L a'" "q = deriveFollowPda L w a'"
    by auto
  with i1 a have "q = deriveFollowPda L w a" by (auto dest: inj_onD)
  with q have "\<exists>e. e \<in> set ?m \<and> ?P e" by auto
  then have "find ?P ?m \<noteq> None" by (simp add: find_None_iff)
  then obtain e where e: "find ?P ?m = Some e" by auto
  from find_SomeD [OF e] have "?P e" "e \<in> set ?m" by auto
  with authorityToFollowPda_entries [of L w as]
  obtain a'' where "a'' \<in> set as" "e = (toBase58 L a'', deriveFollowPda L w a'')" by auto
  with \<open>?P e\<close> i2 a have "fst e = toBase58 L a" by (auto dest: inj_onD)
  with e show ?thesis by (simp add: find_key_def)
qed

lemma resultMap_step_follow:
  assumes "inj_on (toBase58 L) (set as)" and "inj_on (deriveFollowPda L w) (set as)"
    and "a \<in> set as" and "toBase58 L a \<noteq> []"
  shows "resultMap_step (snd (deriveFollowPdas L w as))
           (ledger (deriveFollowPda L w a), deriveFollowPda L w a) r
         = AList.update (toBase58 L a)
             (ledger (deriveFollowPda L w a) \<noteq> None,
              if ledger (deriveFollowPda L w a) \<noteq> None then Some (deriveFollowPda L w a)
              else None) r"
  using assms(4) find_key_follow [OF assms(1-3)]
  by (simp add: resultMap_step_def Map_set_def)

lemma resultMap_fold:
  assumes i1: "inj_on (toBase58 L) (set as)" and i2: "inj_on (deriveFollowPda L w) (set as)"
    and ne: "\<forall>a \<in> set as. toBase58 L a \<noteq> []"
    and sub: "set bs \<subseteq> set as"
  shows "(\<forall>a \<in> set bs.
            map_of (fold (resultMap_step (snd (deriveFollowPdas L w as)))
                      (map (\<lambda>a. (ledger (deriveFollowPda L w a), deriveFollowPda L w a)) bs) r)
              (toBase58 L a)
            = Some (ledger (deriveFollowPda L w a) \<noteq> None,
                    if ledger (deriveFollowPda L w a) \<noteq> None
                    then Some (deriveFollowPda L w a) else None))
       \<and> (\<forall>k. k \<notin> toBase58 L ` set bs \<longrightarrow>
            map_of (fold (resultMap_step (snd (deriveFollowPdas L w as)))
                      (map (\<lambda>a. (ledger (deriveFollowPda L w a), deriveFollowPda L w a)) bs) r) k
            = map_of r k)"
  using sub
proof (induction bs arbitrary: r)
  case Nil
  then show ?case by simp
next
  case (Cons b bs)
  let ?st = "\<lambda>a. (ledger (deriveFollowPda L w a) \<noteq> None,
                    if ledger (deriveFollowPda L w a) \<noteq> None
                    then Some (deriveFollowPda L w a) else None)"
  let ?r' = "AList.update (toBase58 L b) (?st b) r"
  let ?F = "\<lambda>bs r. fold (resultMap_step (snd (deriveFollowPdas L w as)))
                      (map (\<lambda>a. (ledger (deriveFollowPda L w a), deriveFollowPda L w a)) bs) r"
  from Cons.prems have b: "b \<in> set as" and bs: "set bs \<subseteq> set as" by auto
  from ne b have nb: "toBase58 L b \<noteq> []" by simp
  have step: "?F (b # bs) r = ?F bs ?r'"
    by (simp add: resultMap_step_follow [OF i1 i2 b nb])
  note IH = Cons.IH [OF bs, of ?r']
  have one: "map_of (?F (b # bs) r) (toBase58 L a) = Some (?st a)" if a: "a \<in> set (b # bs)" for a
  proof (cases "a \<in> set bs")
    case True
    with IH show ?thesis unfolding step by blast
  next
    case False
    with a have ab: "a = b" by simp
    have "toBase58 L b \<notin> toBase58 L ` set bs"
    proof
      assume "toBase58 L b \<in> toBase58 L ` set bs"
      then obtain c where "c \<in> set bs" "toBase58 L b = toBase58 L c" by auto
      with i1 b bs have "b = c" by (auto dest: inj_onD)
      with \<open>c \<in> set bs\<close> False ab show False by simp
    qed
    with IH have "map_of (?F bs ?r') (toBase58 L b) = map_of ?r' (toBase58 L b)" by blast
    then show ?thesis unfolding step ab by (simp add: update_conv')
  qed
  have two: "map_of (?F (b # bs) r) k = map_of r k" if k: "k \<notin> toBase58 L ` set (b # bs)" for k
  proof -
    from k have "k \<notin> toBase58 L ` set bs" "k \<noteq> toBase58 L b" by auto
    with IH have "map_of (?F bs ?r') k = map_of ?r' k" by blast
    with \<open>k \<noteq> toBase58 L b\<close> show ?thesis unfolding step by (simp add: update_conv')
  qed
  from one two show ?case by blast
qed

lemma resultMap_step_presence:
  "resultMap_step m (map_option f x, q) r = resultMap_step m (x, q) r"
  by (cases x) (simp_all add: resultMap_step_def split: option.splits)

lemma batch_ignores_payload:
  "batchCheckFollowStatus L wallet as (Inr (\<lambda>q. map_option (\<lambda>i. \<lparr>data = []\<rparr>) (ledger q)))
     = batchCheckFollowStatus L wallet as (Inr ledger)"
proof (cases wallet)
  case None
  then show ?thesis by (simp add: batchCheckFollowStatus_def)
next
  case (Some w)
  have "fold (resultMap_step m)
          (map (\<lambda>x. (map_option (\<lambda>i. \<lparr>data = []\<rparr>) (ledger (deriveFollowPda L w x)),
                      deriveFollowPda L w x)) bs) r
        = fold (resultMap_step m)
          (map (\<lambda>x. (ledger (deriveFollowPda L w x), deriveFollowPda L w x)) bs) r" for m bs r
    by (induction bs arbitrary: r) (simp_all add: resultMap_step_presence)
  with Some show ?thesis
    by (simp add: batchCheckFollowStatus_def Let_def followPdas_eq zip_map_map)
qed

text \<open>
  C10: for a connected wallet \<open>w\<close> and authorities whose keys print injectively and non-empty
  and whose follow addresses do not collide, when the batch read answers with the
  ledger's accounts the result map gives, for every authority \<open>a\<close> of the input,
  \<open>isFollowing\<close> true exactly when an account exists at the follow address derived from
  \<open>(w, a)\<close>, and \<open>followPda\<close> that address when it exists and null otherwise. One
  multi-address read is issued, for the follow addresses in input order. The payload is
  never read: erasing the data of every account leaves the result unchanged.
\<close>

theorem C10_follow_status:
  assumes "inj_on (toBase58 L) (set profileAuthorities)"
    and "inj_on (deriveFollowPda L w) (set profileAuthorities)"
    and "\<forall>a \<in> set profileAuthorities. toBase58 L a \<noteq> []"
  shows "(\<exists>resultMap.
            fst (batchCheckFollowStatus L (Some w) profileAuthorities (Inr ledger)) = Inr resultMap
            \<and> (\<forall>a \<in> set profileAuthorities.
                  Map_get resultMap (toBase58 L a)
                    = Some (ledger (deriveFollowPda L w a) \<noteq> None,
                            if ledger (deriveFollowPda L w a) \<noteq> None
                            then Some (deriveFollowPda L w a) else None)))
       \<and> snd (batchCheckFollowStatus L (Some w) profileAuthorities (Inr ledger))
           = [GetMultipleAccountsInfo (map (deriveFollowPda L w) profileAuthorities)]
       \<and> batchCheckFollowStatus L (Some w) profileAuthorities
             (Inr (\<lambda>q. map_option (\<lambda>i. \<lparr>data = []\<rparr>) (ledger q)))
           = batchCheckFollowStatus L (Some w) profileAuthorities (Inr ledger)"
proof -
  let ?m = "snd (deriveFollowPdas L w profileAuthorities)"
  let ?r = "fold (resultMap_step ?m)
              (map (\<lambda>a. (ledger (deriveFollowPda L w a), deriveFollowPda L w a))
                 profileAuthorities) []"
  have f: "fst (batchCheckFollowStatus L (Some w) profileAuthorities (Inr ledger)) = Inr ?r"
    by (simp add: batchCheckFollowStatus_def Let_def followPdas_eq zip_map_map)
  have g: "\<forall>a \<in> set profileAuthorities.
             Map_get ?r (toBase58 L a)
               = Some (ledger (deriveFollowPda L w a) \<noteq> None,
                       if ledger (deriveFollowPda L w a) \<noteq> None
                       then Some (deriveFollowPda L w a) else None)"
    unfolding Map_get_def
    using resultMap_fold [OF assms subset_refl, of ledger "[]"] by blast
  have s: "snd (batchCheckFollowStatus L (Some w) profileAuthorities (Inr ledger))
           = [GetMultipleAccountsInfo (map (deriveFollowPda L w) profileAuthorities)]"
    by (simp add: batchCheckFollowStatus_def Let_def followPdas_eq)
  from f g have "\<exists>resultMap.
            fst (batchCheckFollowStatus L (Some w) profileAuthorities (Inr ledger)) = Inr resultMap
            \<and> (\<forall>a \<in> set profileAuthorities.
                  Map_get resultMap (toBase58 L a)
                    = Some (ledger (deriveFollowPda L w a) \<noteq> None,
                            if ledger (deriveFollowPda L w a) \<noteq> None
                            then Some (deriveFollowPda L w a) else None))"
    by blast
  with s batch_ignores_payload [of L "Some w" profileAuthorities ledger] show ?thesis
    by blast
qed

lemma sample_batch:
  "batchCheckFollowStatus toy_lib (Some (PublicKey ''U1''))
     [PublicKey ''U2'', PublicKey ''U3'', PublicKey ''U2''] (Inr follow_ledger)
   = (Inr [(''U2'', True, Some (PublicKey ''1111110follow110U1110U2'')), (''U3'', False, None)],
      [GetMultipleAccountsInfo
         [PublicKey ''1111110follow110U1110U2'', PublicKey ''1111110follow110U1110U3'',
          PublicKey ''1111110follow110U1110U2'']])"
  by (simp add: batchCheckFollowStatus_def deriveFollowPdas_def deriveFollowPda_def
      resultMap_step_def find_key_def Map_set_def follow_ledger_def toy_lib_def Let_def)

theorem C10_follow_status_witness:
  "batchCheckFollowStatus toy_lib (Some (PublicKey ''U1''))
     [PublicKey ''U2'', PublicKey ''U3'', PublicKey ''U2''] (Inr follow_ledger)
   = (Inr [(''U2'', True, Some (PublicKey ''1111110follow110U1110U2'')), (''U3'', False, None)],
      [GetMultipleAccountsInfo
         [PublicKey ''1111110follow110U1110U2'', PublicKey ''1111110follow110U1110U3'',
          PublicKey ''1111110follow110U1110U2'']])
   \<and> Map_get [(''U2'', True, Some (PublicKey ''1111110follow110U1110U2'')),
              (''U3'', False, None)] ''U3''
     = Some (False, None)"
proof -
  let ?as = "[PublicKey ''U2'', PublicKey ''U3'', PublicKey ''U2'']"
  have h1: "inj_on (toBase58 toy_lib) (set ?as)"
    by (auto simp: inj_on_def toy_lib_def)
  have h2: "inj_on (deriveFollowPda toy_lib (PublicKey ''U1'')) (set ?as)"
    by (auto simp: inj_on_def deriveFollowPda_def toy_lib_def)
  have h3: "\<forall>a \<in> set ?as. toBase58 toy_lib a \<noteq> []" by (simp add: toy_lib_def)
  from C10_follow_status [OF h1 h2 h3, of follow_ledger]
  obtain resultMap where
    r: "fst (batchCheckFollowStatus toy_lib (Some (PublicKey ''U1'')) ?as (Inr follow_ledger))
          = Inr resultMap"
    and g: "\<forall>a \<in> set ?as.
              Map_get resultMap (toBase58 toy_lib a)
                = Some (follow_ledger (deriveFollowPda toy_lib (PublicKey ''U1'') a) \<noteq> None,
                        if follow_ledger (deriveFollowPda toy_lib (PublicKey ''U1'') a) \<noteq> None
                        then Some (deriveFollowPda toy_lib (PublicKey ''U1'') a) else None)"
    by blast
  from r have m: "resultMap = [(''U2'', True, Some (PublicKey ''1111110follow110U1110U2'')),
                               (''U3'', False, None)]"
    by (simp add: sample_batch)
  from g have "Map_get resultMap (toBase58 toy_lib (PublicKey ''U3''))
                = Some (follow_ledger (deriveFollowPda toy_lib (PublicKey ''U1'') (PublicKey ''U3''))
                          \<noteq> None,
                        if follow_ledger (deriveFollowPda toy_lib (PublicKey ''U1'')
                             (PublicKey ''U3'')) \<noteq> None
                        then Some (deriveFollowPda toy_lib (PublicKey ''U1'') (PublicKey ''U3''))
                        else None)"
    by simp
  then have "Map_get resultMap ''U3'' = Some (False, None)"
    by (simp add: toy_lib_def deriveFollowPda_def follow_ledger_def)
  with m sample_batch show ?thesis by simp
qed

end
